theory Spec2Isabelle
  imports Complex_Main "HOL-Library.Word"
begin

section \<open>JavaScript strings\<close>

text \<open>
  A JavaScript string is a sequence of UTF-16 code units. The markers of
  \<^verbatim>\<open>check.ts\<close> use U+25A0 (BLACK SQUARE), which is one code unit, so a string is
  modelled as a list of 16-bit words and every index below is an index in code units,
  as \<^verbatim>\<open>lastIndexOf\<close> counts them.
\<close>

type_synonym jsstring = "16 word list"

definition of_ascii :: "string \<Rightarrow> jsstring" where
  "of_ascii s = map (\<lambda>c. of_nat (of_char c)) s"

text \<open>\<^verbatim>\<open>s.startsWith(p)\<close>: the pattern \<open>p\<close> stands at the start of \<open>s\<close>.\<close>

fun startsWith :: "'a list \<Rightarrow> 'a list \<Rightarrow> bool" where
  "startsWith s [] = True"
| "startsWith [] (p # ps) = False"
| "startsWith (c # cs) (p # ps) = (c = p \<and> startsWith cs ps)"

text \<open>\<^verbatim>\<open>s.indexOf(p)\<close>: the least index at which \<open>p\<close> occurs, or \<open>-1\<close>.\<close>

fun indexOf :: "'a list \<Rightarrow> 'a list \<Rightarrow> int" where
  "indexOf [] p = (if p = [] then 0 else - 1)"
| "indexOf (c # cs) p =
     (if startsWith (c # cs) p then 0
      else (let r = indexOf cs p in if r < 0 then - 1 else r + 1))"

text \<open>\<^verbatim>\<open>s.includes(p)\<close>.\<close>

definition str_includes :: "'a list \<Rightarrow> 'a list \<Rightarrow> bool" where
  "str_includes s p = (indexOf s p \<noteq> - 1)"

text \<open>\<^verbatim>\<open>s.lastIndexOf(p)\<close>: the greatest index at which \<open>p\<close> occurs, or \<open>-1\<close>.\<close>

fun lastIndexOf :: "'a list \<Rightarrow> 'a list \<Rightarrow> int" where
  "lastIndexOf [] p = (if p = [] then 0 else - 1)"
| "lastIndexOf (c # cs) p =
     (let r = lastIndexOf cs p in
      if r \<noteq> - 1 then r + 1
      else if startsWith (c # cs) p then 0 else - 1)"

text \<open>
  \<^verbatim>\<open>s.replace(p, '')\<close> with a string pattern: only the first occurrence of \<open>p\<close> is
  replaced (here: removed); a string without the pattern is returned as it is.
\<close>

fun str_replace :: "'a list \<Rightarrow> 'a list \<Rightarrow> 'a list" where
  "str_replace [] p = []"
| "str_replace (c # cs) p =
     (if startsWith (c # cs) p then drop (length p) (c # cs)
      else c # str_replace cs p)"

text \<open>
  \<^verbatim>\<open>s.trim()\<close> removes the code units of WhiteSpace and LineTerminator from both
  ends: TAB, LF, VT, FF, CR, SP, NBSP, U+1680, U+2000..U+200A, U+2028, U+2029, U+202F,
  U+205F, U+3000 and U+FEFF.
\<close>

definition isWhiteSpace :: "16 word \<Rightarrow> bool" where
  "isWhiteSpace c =
     (c \<in> set [0x0009, 0x000A, 0x000B, 0x000C, 0x000D, 0x0020, 0x00A0, 0x1680,
                0x2000, 0x2001, 0x2002, 0x2003, 0x2004, 0x2005, 0x2006, 0x2007,
                0x2008, 0x2009, 0x200A, 0x2028, 0x2029, 0x202F, 0x205F, 0x3000,
                0xFEFF])"

definition trimStart :: "jsstring \<Rightarrow> jsstring" where
  "trimStart s = dropWhile isWhiteSpace s"

definition trimEnd :: "jsstring \<Rightarrow> jsstring" where
  "trimEnd s = rev (dropWhile isWhiteSpace (rev s))"

definition trim :: "jsstring \<Rightarrow> jsstring" where
  "trim s = trimEnd (trimStart s)"

section \<open>The markers and the output parser\<close>

definition TRUE :: jsstring where
  "TRUE = 0x25A0 # of_ascii ''TRUE'' @ [0x25A0]"

definition FALSE :: jsstring where
  "FALSE = 0x25A0 # of_ascii ''FALSE'' @ [0x25A0]"

definition END :: jsstring where
  "END = 0x25A0 # of_ascii ''END'' @ [0x25A0]"

text \<open>
  What \<^verbatim>\<open>check\<close> can reject with: the abort reason thrown by
  \<^verbatim>\<open>signal.throwIfAborted()\<close>, the \<^verbatim>\<open>Error\<close> thrown by the parser (with its
  message), and a rejection of a collaborator (tokenizer, model, store), passed through.
\<close>

datatype error = Cancelled | MalformedVerdict jsstring | Rejected jsstring

record extracted =
  finalAnswer :: bool
  explanation :: jsstring

text \<open>The \<^verbatim>\<open>transform\<close> callback given to \<^verbatim>\<open>ctx.generateContent\<close> (lines 205-230).\<close>

definition transform :: "jsstring \<Rightarrow> error + extracted" where
  "transform text =
     (let hasTrue = str_includes text TRUE;
          hasFalse = str_includes text FALSE
      in if \<not> hasTrue \<and> \<not> hasFalse
         then Inl (MalformedVerdict
           (of_ascii ''The model did not return a valid answer. The response was: '' @ text))
         else
           (let explanation =
                  trim (str_replace (str_replace (str_replace (str_replace (str_replace
                    text TRUE) FALSE) END) (of_ascii ''Final Answer:'')) (of_ascii ''Analysis:''));
                finalAnswer =
                  (if hasTrue \<and> hasFalse
                   then lastIndexOf text TRUE > lastIndexOf text FALSE
                   else hasTrue)
            in Inr \<lparr>finalAnswer = finalAnswer, explanation = trim explanation\<rparr>))"

section \<open>Data model\<close>

text \<open>
  The \<^verbatim>\<open>input\<close> of \<^verbatim>\<open>check\<close> is \<^verbatim>\<open>unknown\<close>: any JavaScript value. The code itself
  only tells \<^verbatim>\<open>undefined\<close> and \<^verbatim>\<open>null\<close> from the rest (\<^verbatim>\<open>example.input ?? null\<close>)
  and builds strings and arrays of strings (the default examples); every other value is
  opaque (\<open>JOther\<close>).
\<close>

datatype 'o jsvalue =
    JUndefined
  | JNull
  | JString jsstring
  | JArray "'o jsvalue list"
  | JOther 'o

text \<open>The type \<^verbatim>\<open>Example\<close> (lines 18-23); an optional field is an \<open>option\<close>.\<close>

record 'o Example =
  ex_input :: "'o jsvalue"
  ex_check :: bool
  ex_reason :: "jsstring option"
  ex_condition :: "jsstring option"

text \<open>\<^verbatim>\<open>Options\<close> after \<^verbatim>\<open>_Options.parse\<close>: \<^verbatim>\<open>examples\<close> defaults to the empty array.\<close>

record 'o Options =
  opt_examples :: "'o Example list"

definition parseOptions :: "'o Example list option \<Rightarrow> 'o Options" where
  "parseOptions given =
     \<lparr>opt_examples = (case given of None \<Rightarrow> [] | Some exs \<Rightarrow> exs)\<rparr>"

text \<open>The value \<^verbatim>\<open>check\<close> resolves with: \<^verbatim>\<open>{ value, explanation }\<close>.\<close>

record result =
  res_value :: bool
  res_explanation :: jsstring

text \<open>The tokenizer: \<^verbatim>\<open>count(text)\<close> and \<^verbatim>\<open>truncate(text, maxTokens)\<close>.\<close>

record tokenizer =
  tok_count :: "jsstring \<Rightarrow> nat"
  tok_truncate :: "jsstring \<Rightarrow> int \<Rightarrow> jsstring"

text \<open>The model description returned by \<^verbatim>\<open>ctx.getModel()\<close>: \<^verbatim>\<open>model.input.maxTokens\<close>.\<close>

record model =
  input_maxTokens :: int

text \<open>A record returned by \<^verbatim>\<open>adapter.getExamples\<close>, and the argument of that call.\<close>

record retrieved_example =
  st_key :: jsstring
  st_input :: jsstring
  st_output :: bool
  st_explanation :: "jsstring option"

record examples_query =
  q_input :: jsstring
  q_taskType :: jsstring
  q_taskId :: jsstring

text \<open>
  The \<^verbatim>\<open>meta\<close> of a generation and the record given to \<^verbatim>\<open>adapter.saveExample\<close>
  (lines 234-254). Numbers that the code only copies are of an abstract type \<open>'n\<close>.
\<close>

record 'n meta =
  cost_input :: 'n
  cost_output :: 'n
  latency :: 'n
  tokens_input :: 'n
  tokens_output :: 'n

record 'n metadata =
  md_cost_input :: 'n
  md_cost_output :: 'n
  md_latency :: 'n
  md_model :: jsstring
  md_tokens_input :: 'n
  md_tokens_output :: 'n

record 'n saved_example =
  sv_key :: jsstring
  sv_taskType :: jsstring
  sv_taskId :: jsstring
  sv_input :: jsstring
  sv_instructions :: jsstring
  sv_metadata :: "'n metadata"
  sv_output :: bool
  sv_explanation :: jsstring

text \<open>
  The store adapter, over an abstract store state \<open>'s\<close>: \<^verbatim>\<open>getExamples\<close> reads the
  store and may reject; \<^verbatim>\<open>saveExample\<close> returns the store it leaves behind, and the
  error when it rejects.
\<close>

record ('s, 'n) adapter =
  getExamples :: "examples_query \<Rightarrow> 's \<Rightarrow> error + retrieved_example list"
  saveExample :: "'n saved_example \<Rightarrow> 's \<Rightarrow> error option \<times> 's"

text \<open>The request of \<^verbatim>\<open>ctx.generateContent\<close>: role-tagged text messages.\<close>

datatype role = User | Assistant

datatype message_type = Text

record message =
  msg_type :: message_type
  content :: jsstring
  role :: role

record request =
  systemPrompt :: jsstring
  stopSequences :: "jsstring list"
  messages :: "message list"

text \<open>
  What \<^verbatim>\<open>check\<close> imports and does not define: \<^verbatim>\<open>getTokenizer\<close>, and from
  \<^verbatim>\<open>../utils\<close> and \<^verbatim>\<open>./constants\<close> the functions \<^verbatim>\<open>fastHash\<close> and \<^verbatim>\<open>stringify\<close> and
  the constant \<^verbatim>\<open>PROMPT_INPUT_BUFFER\<close>. They are parameters of the model.
\<close>

record 'o env =
  getTokenizer :: "error + tokenizer"
  fastHash :: "jsstring \<Rightarrow> jsstring"
  stringify :: "'o jsvalue \<Rightarrow> jsstring"
  PROMPT_INPUT_BUFFER :: int

text \<open>
  The \<^verbatim>\<open>ZaiContext\<close> of one invocation. \<^verbatim>\<open>ctx.controller.signal\<close> is read twice, at
  line 66 and at line 233; the two fields are what it says at those two moments.
  \<^verbatim>\<open>ctx.generateContent\<close> (of \<^verbatim>\<open>../context\<close>, not among the sources) is a parameter: it
  is given the request and the \<^verbatim>\<open>transform\<close> callback, and resolves with what the
  callback extracted and the meta of the generation, or rejects.
\<close>

record ('s, 'n) ctx =
  aborted_at_entry :: bool
  aborted_before_save :: bool
  taskId :: "jsstring option"
  modelId :: jsstring
  adapter :: "('s, 'n) adapter option"
  getModel :: "error + model"
  generateContent ::
    "request \<Rightarrow> (jsstring \<Rightarrow> error + extracted) \<Rightarrow> error + (extracted \<times> 'n meta)"

text \<open>Every call of a collaborator, in the order \<^verbatim>\<open>check\<close> makes them.\<close>

datatype 'n event =
    GetTokenizer
  | GetModel
  | Truncate jsstring int
  | Count jsstring
  | GetExamples examples_query
  | Generate request
  | SaveExample "'n saved_example"

text \<open>
  What one invocation leaves behind: the value the promise resolves with or the error it
  rejects with, the store, and the calls made.
\<close>

record ('s, 'n) outcome =
  returned :: "error + result"
  store :: 's
  calls :: "'n event list"

section \<open>Budget allocation (lines 69-84)\<close>

definition PROMPT_COMPONENT :: "'o env \<Rightarrow> model \<Rightarrow> int" where
  "PROMPT_COMPONENT env model = max (input_maxTokens model - PROMPT_INPUT_BUFFER env) 100"

text \<open>
  \<^verbatim>\<open>Math.floor(0.5 * PROMPT_COMPONENT)\<close> and \<^verbatim>\<open>Math.floor(0.2 * PROMPT_COMPONENT)\<close>, with
  the products taken in the reals. (For an integer component below \<open>2^53\<close> the product of
  doubles has the same floor: the double nearest to 0.2 exceeds it by the factor
  \<open>1 + 2^-54\<close>, which is less than half a unit in the last place of the product.)
\<close>

definition PROMPT_TOKENS_INPUT :: "int \<Rightarrow> int" where
  "PROMPT_TOKENS_INPUT component = \<lfloor>0.5 * real_of_int component\<rfloor>"

definition PROMPT_TOKENS_CONDITION :: "int \<Rightarrow> int" where
  "PROMPT_TOKENS_CONDITION component = \<lfloor>0.2 * real_of_int component\<rfloor>"

definition inputAsString :: "'o env \<Rightarrow> tokenizer \<Rightarrow> model \<Rightarrow> 'o jsvalue \<Rightarrow> jsstring" where
  "inputAsString env tokenizer model input =
     tok_truncate tokenizer (stringify env input)
       (PROMPT_TOKENS_INPUT (PROMPT_COMPONENT env model))"

text \<open>The parameter \<^verbatim>\<open>condition\<close> after its reassignment at line 81.\<close>

definition truncatedCondition :: "'o env \<Rightarrow> tokenizer \<Rightarrow> model \<Rightarrow> jsstring \<Rightarrow> jsstring" where
  "truncatedCondition env tokenizer model condition =
     tok_truncate tokenizer condition (PROMPT_TOKENS_CONDITION (PROMPT_COMPONENT env model))"

definition EXAMPLES_TOKENS ::
  "'o env \<Rightarrow> tokenizer \<Rightarrow> model \<Rightarrow> 'o jsvalue \<Rightarrow> jsstring \<Rightarrow> int" where
  "EXAMPLES_TOKENS env tokenizer model input condition =
     PROMPT_COMPONENT env model
       - int (tok_count tokenizer (inputAsString env tokenizer model input))
       - int (tok_count tokenizer (truncatedCondition env tokenizer model condition))"

text \<open>The calls of lines 67-84, in order.\<close>

definition setupCalls ::
  "'o env \<Rightarrow> tokenizer \<Rightarrow> model \<Rightarrow> 'o jsvalue \<Rightarrow> jsstring \<Rightarrow> 'n event list" where
  "setupCalls env tokenizer model input condition =
     [GetTokenizer, GetModel,
      Truncate (stringify env input) (PROMPT_TOKENS_INPUT (PROMPT_COMPONENT env model)),
      Truncate condition (PROMPT_TOKENS_CONDITION (PROMPT_COMPONENT env model)),
      Count (inputAsString env tokenizer model input),
      Count (truncatedCondition env tokenizer model condition)]"

section \<open>The fingerprint (lines 86-93)\<close>

text \<open>
  \<^verbatim>\<open>JSON.stringify\<close> of an object whose properties are strings: each string is quoted
  as QuoteJSONString does (the two-character escapes, \<^verbatim>\<open>\uXXXX\<close> in lower case for the
  other code units below U+0020 and for a surrogate that is not part of a pair), and
  a property whose value is \<^verbatim>\<open>undefined\<close> is left out.
\<close>

definition hexDigit :: "nat \<Rightarrow> 16 word" where
  "hexDigit d = (if d < 10 then of_nat (48 + d) else of_nat (87 + d))"

definition unicodeEscape :: "16 word \<Rightarrow> jsstring" where
  "unicodeEscape c =
     [0x5C, 0x75] @ map (\<lambda>k. hexDigit (unat c div 16 ^ k mod 16)) [3, 2, 1, 0]"

definition isLeadingSurrogate :: "16 word \<Rightarrow> bool" where
  "isLeadingSurrogate c = (0xD800 \<le> c \<and> c \<le> 0xDBFF)"

definition isTrailingSurrogate :: "16 word \<Rightarrow> bool" where
  "isTrailingSurrogate c = (0xDC00 \<le> c \<and> c \<le> 0xDFFF)"

definition quoteCodeUnit :: "16 word \<Rightarrow> jsstring" where
  "quoteCodeUnit c =
     (if c = 0x08 then [0x5C, 0x62]
      else if c = 0x09 then [0x5C, 0x74]
      else if c = 0x0A then [0x5C, 0x6E]
      else if c = 0x0C then [0x5C, 0x66]
      else if c = 0x0D then [0x5C, 0x72]
      else if c = 0x22 then [0x5C, 0x22]
      else if c = 0x5C then [0x5C, 0x5C]
      else if c < 0x20 \<or> isLeadingSurrogate c \<or> isTrailingSurrogate c then unicodeEscape c
      else [c])"

fun quoteCodeUnits :: "jsstring \<Rightarrow> jsstring" where
  "quoteCodeUnits [] = []"
| "quoteCodeUnits [c] = quoteCodeUnit c"
| "quoteCodeUnits (c # d # cs) =
     (if isLeadingSurrogate c \<and> isTrailingSurrogate d then c # d # quoteCodeUnits cs
      else quoteCodeUnit c @ quoteCodeUnits (d # cs))"

definition QuoteJSONString :: "jsstring \<Rightarrow> jsstring" where
  "QuoteJSONString s = [0x22] @ quoteCodeUnits s @ [0x22]"

definition DQ :: jsstring where
  "DQ = [0x22]"

text \<open>\<^verbatim>\<open>JSON.stringify({ taskType, taskId, input: inputAsString, condition })\<close>.\<close>

definition JSON_stringify :: "jsstring \<Rightarrow> jsstring option \<Rightarrow> jsstring \<Rightarrow> jsstring \<Rightarrow> jsstring" where
  "JSON_stringify type tid input condition =
     of_ascii ''{'' @ DQ @ of_ascii ''taskType'' @ DQ @ of_ascii '':'' @ QuoteJSONString type
     @ (case tid of
          None \<Rightarrow> []
        | Some t \<Rightarrow> of_ascii '','' @ DQ @ of_ascii ''taskId'' @ DQ @ of_ascii '':'' @ QuoteJSONString t)
     @ of_ascii '','' @ DQ @ of_ascii ''input'' @ DQ @ of_ascii '':'' @ QuoteJSONString input
     @ of_ascii '','' @ DQ @ of_ascii ''condition'' @ DQ @ of_ascii '':'' @ QuoteJSONString condition
     @ of_ascii ''}''"

definition taskType :: jsstring where
  "taskType = of_ascii ''zai.check''"

text \<open>
  \<^verbatim>\<open>Key\<close>, from the task type, the task id and the truncated input and condition.
\<close>

definition Key :: "'o env \<Rightarrow> jsstring option \<Rightarrow> jsstring \<Rightarrow> jsstring \<Rightarrow> jsstring" where
  "Key env tid input condition =
     fastHash env (JSON_stringify taskType tid input condition)"

section \<open>Example retrieval and the exact match (lines 95-107)\<close>

text \<open>
  \<^verbatim>\<open>taskId && ctx.adapter\<close>: the adapter, when the task id is a non-empty string and the
  context has an adapter.
\<close>

definition taskAdapter :: "('s, 'n) ctx \<Rightarrow> (jsstring \<times> ('s, 'n) adapter) option" where
  "taskAdapter ctx =
     (case taskId ctx of
        None \<Rightarrow> None
      | Some t \<Rightarrow>
          (if t = [] then None
           else (case adapter ctx of None \<Rightarrow> None | Some a \<Rightarrow> Some (t, a))))"

text \<open>\<^verbatim>\<open>x ?? ''\<close> for an optional string.\<close>

definition orEmpty :: "jsstring option \<Rightarrow> jsstring" where
  "orEmpty x = (case x of None \<Rightarrow> [] | Some s \<Rightarrow> s)"

section \<open>Example packing (lines 109-128 and 164-168)\<close>

definition defaultExamples :: "'o Example list" where
  "defaultExamples =
     [\<lparr>ex_input = JString (of_ascii ''50 Cent''),
       ex_check = True,
       ex_reason = Some (of_ascii ''50 Cent is widely recognized as a public personality.''),
       ex_condition = Some (of_ascii ''Is the input a public personality?'')\<rparr>,
      \<lparr>ex_input = JArray [JString (of_ascii ''apple''), JString (of_ascii ''banana''),
                           JString (of_ascii ''carrot''), JString (of_ascii ''house'')],
       ex_check = False,
       ex_reason = Some (of_ascii
         ''The list contains a house, which is not a fruit. Also, the list contains a carrot, which is a vegetable.''),
       ex_condition = Some (of_ascii ''Is the input exclusively a list of fruits?'')\<rparr>]"

definition userExamples :: "retrieved_example list \<Rightarrow> 'o Options \<Rightarrow> 'o Example list" where
  "userExamples examples options =
     map (\<lambda>e. \<lparr>ex_input = JString (st_input e), ex_check = st_output e,
                ex_reason = st_explanation e, ex_condition = None\<rparr>) examples
     @ opt_examples options"

text \<open>\<^verbatim>\<open>userExamples.length ? userExamples : defaultExamples\<close>.\<close>

definition examplePool :: "'o Example list \<Rightarrow> 'o Example list" where
  "examplePool us = (if us \<noteq> [] then us else defaultExamples)"

text \<open>The cost callback: \<^verbatim>\<open>tokenizer.count(stringify(el.input)) + tokenizer.count(el.reason ?? '')\<close>.\<close>

definition exampleCost :: "'o env \<Rightarrow> tokenizer \<Rightarrow> 'o Example \<Rightarrow> int" where
  "exampleCost env tokenizer el =
     int (tok_count tokenizer (stringify env (ex_input el)))
       + int (tok_count tokenizer (orEmpty (ex_reason el)))"

definition costCalls :: "'o env \<Rightarrow> 'o Example \<Rightarrow> 'n event list" where
  "costCalls env el = [Count (stringify env (ex_input el)), Count (orEmpty (ex_reason el))]"

text \<open>
  Modelled from the spec: \<^verbatim>\<open>takeUntilTokens\<close> of \<^verbatim>\<open>../utils\<close>, which is not among the
  sources. The spec (4.3): scan the pool in order, accumulating each example's token
  cost; include an example only while the running total stays within the budget; once
  an example would exceed it, stop scanning. \<open>running\<close> is the running total.
\<close>

fun takeUntilTokensFrom :: "int \<Rightarrow> 'a list \<Rightarrow> int \<Rightarrow> ('a \<Rightarrow> int) \<Rightarrow> 'a list" where
  "takeUntilTokensFrom running [] tokens cost = []"
| "takeUntilTokensFrom running (el # arr) tokens cost =
     (if running + cost el > tokens then []
      else el # takeUntilTokensFrom (running + cost el) arr tokens cost)"

definition takeUntilTokens :: "'a list \<Rightarrow> int \<Rightarrow> ('a \<Rightarrow> int) \<Rightarrow> 'a list" where
  "takeUntilTokens arr tokens cost = takeUntilTokensFrom 0 arr tokens cost"

text \<open>The examples whose cost the scan computes: the packed ones and the one it stops at.\<close>

definition scannedExamples :: "'a list \<Rightarrow> 'a list \<Rightarrow> 'a list" where
  "scannedExamples pool packed = take (Suc (length packed)) pool"

section \<open>Prompt assembly (lines 130-204)\<close>

definition NL :: jsstring where
  "NL = [0x0A]"

text \<open>A non-negative integer in a template literal: its decimal digits.\<close>

fun decimal :: "nat \<Rightarrow> jsstring" where
  "decimal n =
     (if n < 10 then [of_nat (48 + n)]
      else decimal (n div 10) @ [of_nat (48 + n mod 10)])"

declare decimal.simps [simp del]

text \<open>
  \<^verbatim>\<open>formatInput\<close>; \<open>exampleId\<close> is the counter's value when the call is made (the
  call increments it only when \<^verbatim>\<open>userExamples\<close> is not empty).
\<close>

definition formatInput :: "'o Example list \<Rightarrow> nat \<Rightarrow> jsstring \<Rightarrow> jsstring \<Rightarrow> jsstring" where
  "formatInput us exampleId input condition =
     (let header =
            (if us \<noteq> [] then of_ascii ''Expert Example #'' @ decimal exampleId
             else of_ascii ''Example of condition: '' @ DQ @ condition @ DQ)
      in trim (NL @ header @ NL @ of_ascii ''<|start_input|>'' @ NL @ trim input @ NL
               @ of_ascii ''<|end_input|>'' @ NL))"

definition formatOutput :: "bool \<Rightarrow> jsstring \<Rightarrow> jsstring" where
  "formatOutput answer justification =
     trim (NL @ of_ascii ''Analysis: '' @ justification @ NL
           @ of_ascii ''Final Answer: '' @ (if answer then TRUE else FALSE) @ NL
           @ END @ NL)"

text \<open>\<^verbatim>\<open>example.input ?? null\<close>.\<close>

definition orNull :: "'o jsvalue \<Rightarrow> 'o jsvalue" where
  "orNull v = (case v of JUndefined \<Rightarrow> JNull | _ \<Rightarrow> v)"

definition formatExample ::
  "'o env \<Rightarrow> 'o Example list \<Rightarrow> jsstring \<Rightarrow> nat \<Rightarrow> 'o Example \<Rightarrow> message list" where
  "formatExample env us condition exampleId example =
     [\<lparr>msg_type = Text,
       content = formatInput us exampleId (stringify env (orNull (ex_input example)))
                   (case ex_condition example of None \<Rightarrow> condition | Some c \<Rightarrow> c),
       role = User\<rparr>,
      \<lparr>msg_type = Text,
       content = formatOutput (ex_check example) (orEmpty (ex_reason example)),
       role = Assistant\<rparr>]"

text \<open>
  \<^verbatim>\<open>allExamples\<close>: the packed examples, formatted in order and flattened. The counter
  starts at 1, so the k-th packed example is formatted with the counter at k.
\<close>

definition allExamples ::
  "'o env \<Rightarrow> 'o Example list \<Rightarrow> jsstring \<Rightarrow> 'o Example list \<Rightarrow> message list" where
  "allExamples env us condition packed =
     concat (map (\<lambda>(i, e). formatExample env us condition i e) (enumerate 1 packed))"

text \<open>The counter \<^verbatim>\<open>exampleId\<close> once \<^verbatim>\<open>allExamples\<close> is built.\<close>

definition exampleIdAfter :: "'o Example list \<Rightarrow> 'o Example list \<Rightarrow> nat" where
  "exampleIdAfter us packed = (if us \<noteq> [] then 1 + length packed else 1)"

definition specialInstructions :: "'o Example list \<Rightarrow> jsstring" where
  "specialInstructions us =
     (if us \<noteq> [] then
        trim (NL
          @ of_ascii ''- You have been provided with examples from previous experts. Make sure to read them carefully before making your decision.''
          @ NL
          @ of_ascii ''- Make sure to refer to the examples provided by the experts to justify your decision (when applicable).''
          @ NL
          @ of_ascii ''- When in doubt, ground your decision on the examples provided by the experts instead of your own intuition.''
          @ NL
          @ of_ascii ''- When no example is similar to the input, make sure to provide a clear justification for your decision while inferring the decision-making process from the examples provided by the experts.''
          @ NL)
      else [])"

definition checkSystemPrompt :: "'o Example list \<Rightarrow> nat \<Rightarrow> jsstring" where
  "checkSystemPrompt us exampleId =
     trim (NL
       @ of_ascii ''Check if the following condition is true or false for the given input. Before answering, make sure to read the input and the condition carefully.''
       @ NL
       @ of_ascii ''Justify your answer, then answer with either '' @ TRUE @ of_ascii '' or '' @ FALSE
       @ of_ascii '' at the very end, then add '' @ END @ of_ascii '' to finish the response.''
       @ NL
       @ of_ascii ''IMPORTANT: Make sure to answer with either '' @ TRUE @ of_ascii '' or '' @ FALSE
       @ of_ascii '' at the end of your response, but NOT both.''
       @ NL
       @ of_ascii ''---''
       @ NL
       @ of_ascii ''Expert Examples (#1 to #'' @ decimal (exampleId - 1) @ of_ascii ''):''
       @ NL
       @ specialInstructions us
       @ NL)"

definition finalMessage :: "'o Example list \<Rightarrow> nat \<Rightarrow> jsstring \<Rightarrow> jsstring \<Rightarrow> message" where
  "finalMessage us exampleId input condition =
     \<lparr>msg_type = Text,
      content =
        trim (NL
          @ of_ascii ''Considering the below input and above examples, is the following condition true or false?''
          @ NL
          @ formatInput us exampleId input condition
          @ NL
          @ of_ascii ''In your '' @ DQ @ of_ascii ''Analysis'' @ DQ
          @ of_ascii '', please refer to the Expert Examples # to justify your decision.''),
      role = User\<rparr>"

text \<open>The argument of \<^verbatim>\<open>ctx.generateContent\<close> (lines 184-204), the callback apart.\<close>

definition checkRequest ::
  "'o env \<Rightarrow> 'o Example list \<Rightarrow> jsstring \<Rightarrow> jsstring \<Rightarrow> 'o Example list \<Rightarrow> request" where
  "checkRequest env us input condition packed =
     \<lparr>systemPrompt = checkSystemPrompt us (exampleIdAfter us packed),
      stopSequences = [END],
      messages = allExamples env us condition packed
                 @ [finalMessage us (exampleIdAfter us packed) input condition]\<rparr>"

section \<open>Model invocation and publication (lines 181-261)\<close>

text \<open>The record of lines 234-254.\<close>

definition savedExample ::
  "('s, 'n) ctx \<Rightarrow> jsstring \<Rightarrow> jsstring \<Rightarrow> jsstring \<Rightarrow> jsstring \<Rightarrow> extracted \<Rightarrow> 'n meta
     \<Rightarrow> 'n saved_example" where
  "savedExample ctx key tid input condition ext meta =
     \<lparr>sv_key = key,
      sv_taskType = taskType,
      sv_taskId = tid,
      sv_input = input,
      sv_instructions = condition,
      sv_metadata =
        \<lparr>md_cost_input = cost_input meta, md_cost_output = cost_output meta,
         md_latency = latency meta, md_model = modelId ctx,
         md_tokens_input = tokens_input meta, md_tokens_output = tokens_output meta\<rparr>,
      sv_output = finalAnswer ext,
      sv_explanation = explanation ext\<rparr>"

text \<open>
  Lines 109-261: what \<^verbatim>\<open>check\<close> does when no retrieved example has the key. \<open>input\<close>
  and \<open>condition\<close> are the truncated ones, \<open>examples\<close> the retrieved examples and
  \<open>made\<close> the calls made so far.
\<close>

definition freshVerdict ::
  "'o env \<Rightarrow> ('s, 'n) ctx \<Rightarrow> tokenizer \<Rightarrow> int \<Rightarrow> jsstring \<Rightarrow> jsstring \<Rightarrow> jsstring
     \<Rightarrow> retrieved_example list \<Rightarrow> 'o Options \<Rightarrow> 's \<Rightarrow> 'n event list \<Rightarrow> ('s, 'n) outcome" where
  "freshVerdict env ctx tokenizer examplesTokens key input condition examples options s made =
     (let us = userExamples examples options;
          packed = takeUntilTokens (examplePool us) examplesTokens (exampleCost env tokenizer);
          req = checkRequest env us input condition packed;
          made' = made @ concat (map (costCalls env) (scannedExamples (examplePool us) packed))
                 @ [Generate req]
      in case generateContent ctx req transform of
           Inl e \<Rightarrow> \<lparr>returned = Inl e, store = s, calls = made'\<rparr>
         | Inr (ext, meta) \<Rightarrow>
             (let res = \<lparr>res_value = finalAnswer ext, res_explanation = trim (explanation ext)\<rparr>
              in case (if aborted_before_save ctx then None else taskAdapter ctx) of
                   None \<Rightarrow> \<lparr>returned = Inr res, store = s, calls = made'\<rparr>
                 | Some (tid, a) \<Rightarrow>
                     (let saved = savedExample ctx key tid input condition ext meta
                      in case saveExample a saved s of
                           (Some e, s') \<Rightarrow>
                             \<lparr>returned = Inl e, store = s', calls = made' @ [SaveExample saved]\<rparr>
                         | (None, s') \<Rightarrow>
                             \<lparr>returned = Inr res, store = s', calls = made' @ [SaveExample saved]\<rparr>)))"

text \<open>
  Lines 95-102: the retrieved examples and the calls made for them. The adapter is
  called only when \<^verbatim>\<open>taskId && ctx.adapter\<close> is truthy; otherwise \<^verbatim>\<open>examples\<close> is the
  empty array.
\<close>

definition retrieveExamples ::
  "('s, 'n) ctx \<Rightarrow> jsstring \<Rightarrow> 's \<Rightarrow> (error + retrieved_example list) \<times> 'n event list" where
  "retrieveExamples ctx input s =
     (case taskAdapter ctx of
        None \<Rightarrow> (Inr [], [])
      | Some (tid, a) \<Rightarrow>
          (let query = \<lparr>q_input = input, q_taskType = taskType, q_taskId = tid\<rparr>
           in (getExamples a query s, [GetExamples query])))"

text \<open>\<^verbatim>\<open>check\<close> (lines 57-261).\<close>

definition check ::
  "'o jsvalue \<Rightarrow> jsstring \<Rightarrow> 'o Options \<Rightarrow> 'o env \<Rightarrow> ('s, 'n) ctx \<Rightarrow> 's \<Rightarrow> ('s, 'n) outcome" where
  "check input condition options env ctx s =
     (if aborted_at_entry ctx then \<lparr>returned = Inl Cancelled, store = s, calls = []\<rparr>
      else case getTokenizer env of
        Inl e \<Rightarrow> \<lparr>returned = Inl e, store = s, calls = [GetTokenizer]\<rparr>
      | Inr tokenizer \<Rightarrow>
         (case getModel ctx of
            Inl e \<Rightarrow> \<lparr>returned = Inl e, store = s, calls = [GetTokenizer, GetModel]\<rparr>
          | Inr model \<Rightarrow>
             (let input' = inputAsString env tokenizer model input;
                  condition' = truncatedCondition env tokenizer model condition;
                  examplesTokens = EXAMPLES_TOKENS env tokenizer model input condition;
                  key = Key env (taskId ctx) input' condition';
                  made = setupCalls env tokenizer model input condition
              in case retrieveExamples ctx input' s of
                   (Inl e, asked) \<Rightarrow> \<lparr>returned = Inl e, store = s, calls = made @ asked\<rparr>
                 | (Inr examples, asked) \<Rightarrow>
                     (case find (\<lambda>x. st_key x = key) examples of
                        Some exactMatch \<Rightarrow>
                          \<lparr>returned =
                             Inr \<lparr>res_value = st_output exactMatch,
                                  res_explanation = orEmpty (st_explanation exactMatch)\<rparr>,
                           store = s, calls = made @ asked\<rparr>
                      | None \<Rightarrow>
                          freshVerdict env ctx tokenizer examplesTokens key input' condition'
                            examples options s (made @ asked)))))"

text \<open>
  The examples packed in a run and the request built from them, as functions of what
  the run has at that point (the names \<^verbatim>\<open>packed\<close> and \<^verbatim>\<open>req\<close> of \<open>freshVerdict\<close>).
\<close>

definition packedExamples ::
  "'o env \<Rightarrow> tokenizer \<Rightarrow> int \<Rightarrow> retrieved_example list \<Rightarrow> 'o Options \<Rightarrow> 'o Example list" where
  "packedExamples env tokenizer examplesTokens examples options =
     takeUntilTokens (examplePool (userExamples examples options)) examplesTokens
       (exampleCost env tokenizer)"

definition requestOf ::
  "'o env \<Rightarrow> tokenizer \<Rightarrow> int \<Rightarrow> jsstring \<Rightarrow> jsstring \<Rightarrow> retrieved_example list \<Rightarrow> 'o Options
     \<Rightarrow> request" where
  "requestOf env tokenizer examplesTokens input condition examples options =
     checkRequest env (userExamples examples options) input condition
       (packedExamples env tokenizer examplesTokens examples options)"

definition scanCalls ::
  "'o env \<Rightarrow> tokenizer \<Rightarrow> int \<Rightarrow> retrieved_example list \<Rightarrow> 'o Options \<Rightarrow> 'n event list" where
  "scanCalls env tokenizer examplesTokens examples options =
     concat (map (costCalls env)
       (scannedExamples (examplePool (userExamples examples options))
          (packedExamples env tokenizer examplesTokens examples options)))"

text \<open>Kinds of calls.\<close>

fun isTokenizerCall :: "'n event \<Rightarrow> bool" where
  "isTokenizerCall GetTokenizer = True"
| "isTokenizerCall (Truncate t n) = True"
| "isTokenizerCall (Count t) = True"
| "isTokenizerCall ev = False"

fun isStoreCall :: "'n event \<Rightarrow> bool" where
  "isStoreCall (GetExamples q) = True"
| "isStoreCall (SaveExample r) = True"
| "isStoreCall ev = False"

fun isSaveCall :: "'n event \<Rightarrow> bool" where
  "isSaveCall (SaveExample r) = True"
| "isSaveCall ev = False"

fun isModelCall :: "'n event \<Rightarrow> bool" where
  "isModelCall (Generate req) = True"
| "isModelCall ev = False"

section \<open>Collaborators for concrete runs\<close>

text \<open>
  A tokenizer with one token per code unit, a store that is the list of the saved
  records (its adapter returns the records of the task, in order), the same store with a
  write that always fails, and a context whose model answers every request with one
  text.
\<close>

definition unitTokenizer :: tokenizer where
  "unitTokenizer = \<lparr>tok_count = length, tok_truncate = (\<lambda>t n. take (nat n) t)\<rparr>"

definition plainEnv :: "unit env" where
  "plainEnv =
     \<lparr>getTokenizer = Inr unitTokenizer,
      fastHash = (\<lambda>t. t),
      stringify = (\<lambda>v. case v of JString t \<Rightarrow> t | _ \<Rightarrow> of_ascii ''null''),
      PROMPT_INPUT_BUFFER = 1048\<rparr>"

definition asRetrieved :: "'n saved_example \<Rightarrow> retrieved_example" where
  "asRetrieved r =
     \<lparr>st_key = sv_key r, st_input = sv_input r, st_output = sv_output r,
      st_explanation = Some (sv_explanation r)\<rparr>"

definition listAdapter :: "('n saved_example list, 'n) adapter" where
  "listAdapter =
     \<lparr>getExamples = (\<lambda>q st. Inr (map asRetrieved (filter (\<lambda>r. sv_taskId r = q_taskId q) st))),
      saveExample = (\<lambda>r st. (None, st @ [r]))\<rparr>"

definition failingAdapter :: "('n saved_example list, 'n) adapter" where
  "failingAdapter =
     \<lparr>getExamples = (\<lambda>q st. Inr (map asRetrieved (filter (\<lambda>r. sv_taskId r = q_taskId q) st))),
      saveExample = (\<lambda>r st. (Some (Rejected (of_ascii ''table unavailable'')), st))\<rparr>"

text \<open>
  Modelled from the spec: an implementation of \<^verbatim>\<open>ctx.generateContent\<close>, whose code is
  not among the sources, for the concrete runs. The spec (4.5, 5, 7): the model is
  invoked once with the assembled messages and the stop sequence; the parsing rules are
  applied to the raw response text; a provider failure and a malformed verdict go to the
  caller, and nothing is retried. \<open>provider\<close> is the model: the raw text and the meta of
  one completion, or a rejection.
\<close>

definition singleCompletion ::
  "(request \<Rightarrow> error + (jsstring \<times> 'n meta)) \<Rightarrow> request \<Rightarrow> (jsstring \<Rightarrow> error + 'x)
     \<Rightarrow> error + ('x \<times> 'n meta)" where
  "singleCompletion provider req callback =
     (case provider req of
        Inl e \<Rightarrow> Inl e
      | Inr (text, meta) \<Rightarrow>
          (case callback text of Inl e \<Rightarrow> Inl e | Inr x \<Rightarrow> Inr (x, meta)))"

definition plainMeta :: "nat meta" where
  "plainMeta =
     \<lparr>cost_input = 3, cost_output = 1, latency = 250, tokens_input = 120, tokens_output = 9\<rparr>"

definition plainModel :: model where
  "plainModel = \<lparr>input_maxTokens = 2048\<rparr>"

definition plainCtx ::
  "jsstring option \<Rightarrow> (nat saved_example list, nat) adapter option \<Rightarrow> jsstring
     \<Rightarrow> (nat saved_example list, nat) ctx" where
  "plainCtx tid a answer =
     \<lparr>aborted_at_entry = False,
      aborted_before_save = False,
      taskId = tid,
      modelId = of_ascii ''best'',
      adapter = a,
      getModel = Inr plainModel,
      generateContent = singleCompletion (\<lambda>req. Inr (answer, plainMeta))\<rparr>"

text \<open>An input, a condition, a task and a record saved for them earlier.\<close>

definition rapper :: "unit jsvalue" where
  "rapper = JString (of_ascii ''50 Cent'')"

definition isPerson :: jsstring where
  "isPerson = of_ascii ''Is it a person?''"

definition task1 :: jsstring where
  "task1 = of_ascii ''t1''"

definition knownAnswer :: "nat saved_example" where
  "knownAnswer =
     \<lparr>sv_key = Key plainEnv (Some task1) (of_ascii ''50 Cent'') isPerson,
      sv_taskType = taskType,
      sv_taskId = task1,
      sv_input = of_ascii ''50 Cent'',
      sv_instructions = isPerson,
      sv_metadata =
        \<lparr>md_cost_input = 3, md_cost_output = 1, md_latency = 250, md_model = of_ascii ''best'',
         md_tokens_input = 120, md_tokens_output = 9\<rparr>,
      sv_output = True,
      sv_explanation = of_ascii ''A rapper.''\<rparr>"

text \<open>A response of the model with a verdict, and a call without caller examples.\<close>

definition rapperAnswer :: jsstring where
  "rapperAnswer = of_ascii ''A rapper. '' @ TRUE"

definition noExamples :: "unit Options" where
  "noExamples = \<lparr>opt_examples = []\<rparr>"

text \<open>
  For the call \<open>check rapper isPerson noExamples\<close> with these collaborators and no
  retrieved example: the request given to the model, the parsed response, and the record
  saved for the task.
\<close>

definition plainRequest :: request where
  "plainRequest =
     requestOf plainEnv unitTokenizer
       (EXAMPLES_TOKENS plainEnv unitTokenizer plainModel rapper isPerson)
       (inputAsString plainEnv unitTokenizer plainModel rapper)
       (truncatedCondition plainEnv unitTokenizer plainModel isPerson) [] noExamples"

definition plainVerdict :: extracted where
  "plainVerdict = \<lparr>finalAnswer = True, explanation = of_ascii ''A rapper.''\<rparr>"

definition plainSaved :: "nat saved_example" where
  "plainSaved =
     savedExample (plainCtx (Some task1) (Some listAdapter) rapperAnswer)
       (Key plainEnv (Some task1) (inputAsString plainEnv unitTokenizer plainModel rapper)
          (truncatedCondition plainEnv unitTokenizer plainModel isPerson))
       task1 (inputAsString plainEnv unitTokenizer plainModel rapper)
       (truncatedCondition plainEnv unitTokenizer plainModel isPerson) plainVerdict plainMeta"

section \<open>What the specification says, for comparison\<close>

text \<open>
  The pattern \<open>p\<close> occurs in \<open>s\<close> at index \<open>i\<close>; it occurs in \<open>s\<close>; \<open>i\<close> is the index
  of its first, of its last occurrence.
\<close>

definition occurs_at :: "'a list \<Rightarrow> 'a list \<Rightarrow> nat \<Rightarrow> bool" where
  "occurs_at p s i = (\<exists>a b. s = a @ p @ b \<and> length a = i)"

definition occurs_in :: "'a list \<Rightarrow> 'a list \<Rightarrow> bool" where
  "occurs_in p s = (\<exists>i. occurs_at p s i)"

definition is_last_occurrence :: "'a list \<Rightarrow> 'a list \<Rightarrow> nat \<Rightarrow> bool" where
  "is_last_occurrence p s i = (occurs_at p s i \<and> (\<forall>k. occurs_at p s k \<longrightarrow> k \<le> i))"

definition is_first_occurrence :: "'a list \<Rightarrow> 'a list \<Rightarrow> nat \<Rightarrow> bool" where
  "is_first_occurrence p s i = (occurs_at p s i \<and> (\<forall>k. occurs_at p s k \<longrightarrow> i \<le> k))"

text \<open>\<open>t\<close> is \<open>s\<close> without the first occurrence of \<open>p\<close>, or \<open>s\<close> when \<open>p\<close> does not occur.\<close>

definition removes_first :: "'a list \<Rightarrow> 'a list \<Rightarrow> 'a list \<Rightarrow> bool" where
  "removes_first p s t =
     (if occurs_in p s
      then \<exists>a b. s = a @ p @ b \<and> is_first_occurrence p s (length a) \<and> t = a @ b
      else t = s)"

text \<open>
  \<open>s\<close> without every occurrence of \<open>p\<close>, found from left to right (as
  \<^verbatim>\<open>s.replaceAll(p, '')\<close> finds them).
\<close>

function remove_all :: "'a list \<Rightarrow> 'a list \<Rightarrow> 'a list" where
  "remove_all [] p = []"
| "remove_all (c # cs) p =
     (if p \<noteq> [] \<and> startsWith (c # cs) p then remove_all (drop (length p) (c # cs)) p
      else c # remove_all cs p)"
  by pat_completeness auto
termination
  by (relation "measure (\<lambda>(s, p). length s)") auto

text \<open>
  The explanation as the specification words it (4.5, rule 4), read as every occurrence
  of the three markers and of the two labels removed, then trimmed.
\<close>

definition explanation_all_removed :: "jsstring \<Rightarrow> jsstring" where
  "explanation_all_removed text =
     trim (remove_all (remove_all (remove_all (remove_all (remove_all
       text TRUE) FALSE) END) (of_ascii ''Final Answer:'')) (of_ascii ''Analysis:''))"


section \<open>Facts about the string operations\<close>

lemma startsWith_iff: "startsWith s p \<longleftrightarrow> take (length p) s = p"
  by (induction s p rule: startsWith.induct) auto

lemma startsWith_occurs: "startsWith s p \<longleftrightarrow> occurs_at p s 0"
  by (auto simp: startsWith_iff occurs_at_def) (metis append_take_drop_id)

lemma occurs_at_Nil: "occurs_at p [] i \<longleftrightarrow> p = [] \<and> i = 0"
  by (auto simp: occurs_at_def)

lemma occurs_at_Cons_Suc: "occurs_at p (c # cs) (Suc i) \<longleftrightarrow> occurs_at p cs i"
proof
  assume "occurs_at p (c # cs) (Suc i)"
  then obtain a b where s: "c # cs = a @ p @ b" and n: "length a = Suc i"
    by (auto simp: occurs_at_def)
  from n obtain x a' where a: "a = x # a'" by (cases a) auto
  with s n show "occurs_at p cs i" by (auto simp: occurs_at_def)
next
  assume "occurs_at p cs i"
  then obtain a b where "cs = a @ p @ b" and "length a = i"
    by (auto simp: occurs_at_def)
  then have "c # cs = (c # a) @ p @ b \<and> length (c # a) = Suc i" by simp
  then show "occurs_at p (c # cs) (Suc i)" unfolding occurs_at_def by blast
qed

lemma occurs_in_Nil: "occurs_in p [] \<longleftrightarrow> p = []"
  by (auto simp: occurs_in_def occurs_at_Nil)

lemma occurs_in_Cons: "occurs_in p (c # cs) \<longleftrightarrow> startsWith (c # cs) p \<or> occurs_in p cs"
proof -
  have "occurs_in p (c # cs) \<longleftrightarrow> occurs_at p (c # cs) 0 \<or> (\<exists>i. occurs_at p (c # cs) (Suc i))"
    unfolding occurs_in_def by (metis not0_implies_Suc)
  then show ?thesis by (simp add: occurs_at_Cons_Suc startsWith_occurs occurs_in_def)
qed

lemma indexOf_ge: "- 1 \<le> indexOf s p"
  by (induction s) (auto simp: Let_def)

lemma indexOf_occurs: "indexOf s p \<noteq> - 1 \<longleftrightarrow> occurs_in p s"
proof (induction s)
  case Nil
  then show ?case by (simp add: occurs_in_Nil)
next
  case (Cons c cs)
  have "- 1 \<le> indexOf cs p" by (rule indexOf_ge)
  with Cons show ?case by (auto simp: occurs_in_Cons Let_def)
qed

lemma str_includes_iff: "str_includes s p \<longleftrightarrow> occurs_in p s"
  by (simp add: str_includes_def indexOf_occurs)

lemma lastIndexOf_ge: "- 1 \<le> lastIndexOf s p"
  by (induction s) (auto simp: Let_def)

lemma lastIndexOf_none: "lastIndexOf s p = - 1 \<longleftrightarrow> \<not> occurs_in p s"
proof (induction s)
  case Nil
  then show ?case by (simp add: occurs_in_Nil)
next
  case (Cons c cs)
  have "- 1 \<le> lastIndexOf cs p" by (rule lastIndexOf_ge)
  with Cons show ?case by (auto simp: occurs_in_Cons Let_def)
qed

text \<open>\<^verbatim>\<open>lastIndexOf\<close> is the index of the last occurrence.\<close>

lemma lastIndexOf_last:
  "occurs_in p s \<Longrightarrow> 0 \<le> lastIndexOf s p \<and> is_last_occurrence p s (nat (lastIndexOf s p))"
proof (induction s)
  case Nil
  then show ?case by (simp add: occurs_in_Nil is_last_occurrence_def occurs_at_Nil)
next
  case (Cons c cs)
  show ?case
  proof (cases "occurs_in p cs")
    case True
    with Cons.IH have r: "0 \<le> lastIndexOf cs p"
      and l: "is_last_occurrence p cs (nat (lastIndexOf cs p))"
      by simp_all
    have eq: "lastIndexOf (c # cs) p = lastIndexOf cs p + 1" using r by (simp add: Let_def)
    have n: "nat (lastIndexOf cs p + 1) = Suc (nat (lastIndexOf cs p))" using r by simp
    have "is_last_occurrence p (c # cs) (Suc (nat (lastIndexOf cs p)))"
      unfolding is_last_occurrence_def
    proof (intro conjI allI impI)
      show "occurs_at p (c # cs) (Suc (nat (lastIndexOf cs p)))"
        using l by (simp add: occurs_at_Cons_Suc is_last_occurrence_def)
    next
      fix k assume k: "occurs_at p (c # cs) k"
      show "k \<le> Suc (nat (lastIndexOf cs p))"
      proof (cases k)
        case 0
        then show ?thesis by simp
      next
        case (Suc k')
        with k have "occurs_at p cs k'" by (simp add: occurs_at_Cons_Suc)
        with l have "k' \<le> nat (lastIndexOf cs p)" by (simp add: is_last_occurrence_def)
        with Suc show ?thesis by simp
      qed
    qed
    with eq n r show ?thesis by simp
  next
    case False
    then have r: "lastIndexOf cs p = - 1" by (simp add: lastIndexOf_none)
    from False Cons.prems have sw: "startsWith (c # cs) p" by (simp add: occurs_in_Cons)
    then have eq: "lastIndexOf (c # cs) p = 0" using r by (simp add: Let_def)
    have "is_last_occurrence p (c # cs) 0"
      unfolding is_last_occurrence_def
    proof (intro conjI allI impI)
      show "occurs_at p (c # cs) 0" using sw by (simp add: startsWith_occurs)
    next
      fix k assume k: "occurs_at p (c # cs) k"
      show "k \<le> 0"
      proof (cases k)
        case 0
        then show ?thesis by simp
      next
        case (Suc k')
        with k have "occurs_at p cs k'" by (simp add: occurs_at_Cons_Suc)
        with False show ?thesis by (auto simp: occurs_in_def)
      qed
    qed
    with eq show ?thesis by simp
  qed
qed

text \<open>\<^verbatim>\<open>replace\<close> with a string pattern removes the first occurrence, and only that.\<close>

lemma str_replace_removes_first: "removes_first p s (str_replace s p)"
proof (induction s)
  case Nil
  then show ?case
    by (auto simp: removes_first_def occurs_in_Nil is_first_occurrence_def occurs_at_Nil)
next
  case (Cons c cs)
  show ?case
  proof (cases "startsWith (c # cs) p")
    case True
    then have tk: "take (length p) (c # cs) = p" by (simp add: startsWith_iff)
    have s: "c # cs = [] @ p @ drop (length p) (c # cs)"
      using tk by (metis append_Nil append_take_drop_id)
    have f: "is_first_occurrence p (c # cs) (length ([]::'a list))"
      using True by (simp add: is_first_occurrence_def startsWith_occurs)
    have r: "str_replace (c # cs) p = [] @ drop (length p) (c # cs)" using True by simp
    have o: "occurs_in p (c # cs)" using True by (simp add: occurs_in_Cons)
    show ?thesis unfolding removes_first_def using o s f r by (simp only: if_True) blast
  next
    case False
    then have r: "str_replace (c # cs) p = c # str_replace cs p" by simp
    have oc: "occurs_in p (c # cs) \<longleftrightarrow> occurs_in p cs"
      using False by (simp add: occurs_in_Cons)
    show ?thesis
    proof (cases "occurs_in p cs")
      case True
      with Cons.IH obtain a b where cs: "cs = a @ p @ b"
        and fo: "is_first_occurrence p cs (length a)" and t: "str_replace cs p = a @ b"
        by (auto simp: removes_first_def)
      have s': "c # cs = (c # a) @ p @ b" using cs by simp
      have "is_first_occurrence p (c # cs) (length (c # a))"
        unfolding is_first_occurrence_def
      proof (intro conjI allI impI)
        show "occurs_at p (c # cs) (length (c # a))"
          using fo by (simp add: occurs_at_Cons_Suc is_first_occurrence_def)
      next
        fix k assume k: "occurs_at p (c # cs) k"
        show "length (c # a) \<le> k"
        proof (cases k)
          case 0
          with k False show ?thesis by (simp add: startsWith_occurs)
        next
          case (Suc k')
          with k have "occurs_at p cs k'" by (simp add: occurs_at_Cons_Suc)
          with fo have "length a \<le> k'" by (simp add: is_first_occurrence_def)
          with Suc show ?thesis by simp
        qed
      qed
      moreover have "str_replace (c # cs) p = (c # a) @ b" using r t by simp
      ultimately show ?thesis
        unfolding removes_first_def using oc True s' by (simp only: if_True) blast
    next
      case False
      with Cons.IH have "str_replace cs p = cs" by (simp add: removes_first_def)
      with r oc False show ?thesis by (simp add: removes_first_def)
    qed
  qed
qed

lemma dropWhile_rev_dropWhile:
  "dropWhile P (rev (dropWhile P (rev (dropWhile P s)))) = rev (dropWhile P (rev (dropWhile P s)))"
proof (cases "dropWhile P s")
  case Nil
  show ?thesis unfolding Nil by simp
next
  case (Cons x u)
  then have nx: "\<not> P x" by (metis hd_dropWhile list.sel(1) list.distinct(1))
  have "\<exists>v. dropWhile P (rev (x # u)) = v @ [x]"
    using nx by (simp add: dropWhile_append)
  then obtain v where "dropWhile P (rev (x # u)) = v @ [x]" by blast
  with nx show ?thesis unfolding Cons by simp
qed

lemma trim_idem: "trim (trim s) = trim s"
  by (simp add: trim_def trimStart_def trimEnd_def dropWhile_rev_dropWhile dropWhile_idem)

lemma TRUE_code: "TRUE = [9632, 84, 82, 85, 69, 9632]"
  by (simp add: TRUE_def of_ascii_def)

lemma FALSE_code: "FALSE = [9632, 70, 65, 76, 83, 69, 9632]"
  by (simp add: FALSE_def of_ascii_def)

lemma END_code: "END = [9632, 69, 78, 68, 9632]"
  by (simp add: END_def of_ascii_def)

lemmas marker_codes = TRUE_code FALSE_code END_code

lemmas str_eval = str_includes_def Let_def of_ascii_def trim_def trimStart_def trimEnd_def
  isWhiteSpace_def

section \<open>The output parser: verdict, failure and explanation\<close>

text \<open>
  C2. When both markers occur in the response text, the verdict is decided by the last
  occurrences: it is true exactly when the last occurrence of the TRUE marker starts
  after the last occurrence of the FALSE marker.
\<close>

theorem transform_last_marker_wins:
  assumes "occurs_in TRUE text" and "occurs_in FALSE text"
  shows "\<exists>i j e. is_last_occurrence TRUE text i \<and> is_last_occurrence FALSE text j \<and>
           transform text = Inr \<lparr>finalAnswer = (j < i), explanation = e\<rparr>"
proof -
  let ?i = "lastIndexOf text TRUE" and ?j = "lastIndexOf text FALSE"
  from assms(1) have i: "0 \<le> ?i" "is_last_occurrence TRUE text (nat ?i)"
    using lastIndexOf_last by blast+
  from assms(2) have j: "0 \<le> ?j" "is_last_occurrence FALSE text (nat ?j)"
    using lastIndexOf_last by blast+
  have cmp: "(?j < ?i) = (nat ?j < nat ?i)" using i(1) j(1) by auto
  have "\<exists>e. transform text = Inr \<lparr>finalAnswer = (nat ?j < nat ?i), explanation = e\<rparr>"
    using assms cmp by (simp add: transform_def str_includes_iff Let_def)
  with i(2) j(2) show ?thesis by blast
qed

theorem transform_last_marker_wins_witness:
  "occurs_in TRUE (of_ascii ''yes '' @ TRUE @ of_ascii '' no '' @ FALSE)
   \<and> occurs_in FALSE (of_ascii ''yes '' @ TRUE @ of_ascii '' no '' @ FALSE)
   \<and> (\<exists>i j e. is_last_occurrence TRUE (of_ascii ''yes '' @ TRUE @ of_ascii '' no '' @ FALSE) i
        \<and> is_last_occurrence FALSE (of_ascii ''yes '' @ TRUE @ of_ascii '' no '' @ FALSE) j
        \<and> transform (of_ascii ''yes '' @ TRUE @ of_ascii '' no '' @ FALSE)
            = Inr \<lparr>finalAnswer = (j < i), explanation = e\<rparr>)
   \<and> transform (of_ascii ''yes '' @ TRUE @ of_ascii '' no '' @ FALSE)
       = Inr \<lparr>finalAnswer = False, explanation = of_ascii ''yes  no''\<rparr>
   \<and> transform (of_ascii ''no '' @ FALSE @ of_ascii '' yes '' @ TRUE)
       = Inr \<lparr>finalAnswer = True, explanation = of_ascii ''no  yes''\<rparr>"
proof -
  let ?t = "of_ascii ''yes '' @ TRUE @ of_ascii '' no '' @ FALSE"
  have "str_includes ?t TRUE" by (simp add: marker_codes str_eval)
  then have h1: "occurs_in TRUE ?t" by (simp add: str_includes_iff)
  have "str_includes ?t FALSE" by (simp add: marker_codes str_eval)
  then have h2: "occurs_in FALSE ?t" by (simp add: str_includes_iff)
  have c1: "transform ?t = Inr \<lparr>finalAnswer = False, explanation = of_ascii ''yes  no''\<rparr>"
    by (simp add: transform_def marker_codes str_eval)
  have c2: "transform (of_ascii ''no '' @ FALSE @ of_ascii '' yes '' @ TRUE)
       = Inr \<lparr>finalAnswer = True, explanation = of_ascii ''no  yes''\<rparr>"
    by (simp add: transform_def marker_codes str_eval)
  from h1 h2 transform_last_marker_wins [OF h1 h2] c1 c2 show ?thesis by blast
qed

text \<open>
  C3. A response text in which neither marker occurs makes the parser fail with the
  malformed-verdict error, whose message quotes the text; a text in which at least one
  marker occurs is parsed to a verdict and an explanation.
\<close>

theorem transform_malformed_iff_no_marker:
  "(\<not> occurs_in TRUE text \<and> \<not> occurs_in FALSE text \<longrightarrow>
      transform text = Inl (MalformedVerdict
        (of_ascii ''The model did not return a valid answer. The response was: '' @ text)))
   \<and> (occurs_in TRUE text \<or> occurs_in FALSE text \<longrightarrow> (\<exists>r. transform text = Inr r))"
  by (simp add: transform_def str_includes_iff Let_def)

theorem transform_malformed_iff_no_marker_witness:
  "\<not> occurs_in TRUE (of_ascii ''It depends.'') \<and> \<not> occurs_in FALSE (of_ascii ''It depends.'')
   \<and> transform (of_ascii ''It depends.'') = Inl (MalformedVerdict
        (of_ascii ''The model did not return a valid answer. The response was: ''
           @ of_ascii ''It depends.''))
   \<and> occurs_in FALSE (of_ascii ''No. '' @ FALSE)
   \<and> (\<exists>r. transform (of_ascii ''No. '' @ FALSE) = Inr r)"
proof -
  have "\<not> str_includes (of_ascii ''It depends.'') TRUE" by (simp add: marker_codes str_eval)
  then have n1: "\<not> occurs_in TRUE (of_ascii ''It depends.'')" by (simp add: str_includes_iff)
  have "\<not> str_includes (of_ascii ''It depends.'') FALSE" by (simp add: marker_codes str_eval)
  then have n2: "\<not> occurs_in FALSE (of_ascii ''It depends.'')" by (simp add: str_includes_iff)
  have "str_includes (of_ascii ''No. '' @ FALSE) FALSE" by (simp add: marker_codes str_eval)
  then have y: "occurs_in FALSE (of_ascii ''No. '' @ FALSE)" by (simp add: str_includes_iff)
  from n1 n2 y transform_malformed_iff_no_marker [of "of_ascii ''It depends.''"]
    transform_malformed_iff_no_marker [of "of_ascii ''No. '' @ FALSE"]
  show ?thesis by blast
qed

text \<open>
  C5, as the claim states it, fails: \<^verbatim>\<open>replace\<close> with a string pattern removes one
  occurrence. In a text with the TRUE marker twice, the second marker stays in the
  explanation, while the text with every occurrence removed is just the justification.
\<close>

theorem transform_explanation_all_removed_counterexample:
  "explanation_all_removed (TRUE @ of_ascii '' fits. Final Answer: '' @ TRUE) = of_ascii ''fits.''
   \<and> transform (TRUE @ of_ascii '' fits. Final Answer: '' @ TRUE)
       = Inr \<lparr>finalAnswer = True, explanation = of_ascii ''fits.  '' @ TRUE\<rparr>
   \<and> transform (TRUE @ of_ascii '' fits. Final Answer: '' @ TRUE)
       \<noteq> Inr \<lparr>finalAnswer = True,
               explanation = explanation_all_removed (TRUE @ of_ascii '' fits. Final Answer: '' @ TRUE)\<rparr>"
  by (simp add: transform_def explanation_all_removed_def marker_codes str_eval)

text \<open>
  C5, amended. For a text with at least one marker, the explanation is the text from
  which the first occurrence (if any) of the TRUE marker, then of the FALSE marker, of
  the END marker, of the label "Final Answer:" and of the label "Analysis:" has been
  removed, in this order and each from the result of the removal before, then trimmed.
\<close>

theorem transform_explanation_first_removed:
  assumes "occurs_in TRUE text \<or> occurs_in FALSE text"
  shows "\<exists>t1 t2 t3 t4 t5 v.
           removes_first TRUE text t1 \<and> removes_first FALSE t1 t2 \<and> removes_first END t2 t3
           \<and> removes_first (of_ascii ''Final Answer:'') t3 t4
           \<and> removes_first (of_ascii ''Analysis:'') t4 t5
           \<and> transform text = Inr \<lparr>finalAnswer = v, explanation = trim t5\<rparr>"
proof -
  let ?t1 = "str_replace text TRUE"
  let ?t2 = "str_replace ?t1 FALSE"
  let ?t3 = "str_replace ?t2 END"
  let ?t4 = "str_replace ?t3 (of_ascii ''Final Answer:'')"
  let ?t5 = "str_replace ?t4 (of_ascii ''Analysis:'')"
  have "\<exists>v. transform text = Inr \<lparr>finalAnswer = v, explanation = trim ?t5\<rparr>"
    using assms by (auto simp: transform_def str_includes_iff Let_def trim_idem)
  moreover have "removes_first TRUE text ?t1" "removes_first FALSE ?t1 ?t2"
    "removes_first END ?t2 ?t3" "removes_first (of_ascii ''Final Answer:'') ?t3 ?t4"
    "removes_first (of_ascii ''Analysis:'') ?t4 ?t5"
    by (rule str_replace_removes_first)+
  ultimately show ?thesis by blast
qed

theorem transform_explanation_first_removed_witness:
  "(occurs_in TRUE (of_ascii ''Analysis: ok Final Answer: '' @ TRUE)
      \<or> occurs_in FALSE (of_ascii ''Analysis: ok Final Answer: '' @ TRUE))
   \<and> (\<exists>t1 t2 t3 t4 t5 v.
           removes_first TRUE (of_ascii ''Analysis: ok Final Answer: '' @ TRUE) t1
           \<and> removes_first FALSE t1 t2 \<and> removes_first END t2 t3
           \<and> removes_first (of_ascii ''Final Answer:'') t3 t4
           \<and> removes_first (of_ascii ''Analysis:'') t4 t5
           \<and> transform (of_ascii ''Analysis: ok Final Answer: '' @ TRUE)
               = Inr \<lparr>finalAnswer = v, explanation = trim t5\<rparr>)
   \<and> transform (of_ascii ''Analysis: ok Final Answer: '' @ TRUE)
       = Inr \<lparr>finalAnswer = True, explanation = of_ascii ''ok''\<rparr>"
proof -
  let ?t = "of_ascii ''Analysis: ok Final Answer: '' @ TRUE"
  have "str_includes ?t TRUE" by (simp add: marker_codes str_eval)
  then have h: "occurs_in TRUE ?t \<or> occurs_in FALSE ?t" by (simp add: str_includes_iff)
  have c: "transform ?t = Inr \<lparr>finalAnswer = True, explanation = of_ascii ''ok''\<rparr>"
    by (simp add: transform_def marker_codes str_eval)
  from h transform_explanation_first_removed [OF h] c show ?thesis by blast
qed

section \<open>Budget allocation: facts\<close>

lemma PROMPT_TOKENS_INPUT_div: "PROMPT_TOKENS_INPUT c = c div 2"
proof -
  have "0.5 * real_of_int c = real_of_int c / real_of_int 2" by simp
  then show ?thesis unfolding PROMPT_TOKENS_INPUT_def by (simp only: floor_divide_of_int_eq)
qed

lemma PROMPT_TOKENS_CONDITION_div: "PROMPT_TOKENS_CONDITION c = c div 5"
proof -
  have "0.2 * real_of_int c = real_of_int c / real_of_int 5" by simp
  then show ?thesis unfolding PROMPT_TOKENS_CONDITION_def by (simp only: floor_divide_of_int_eq)
qed

lemma PROMPT_COMPONENT_ge: "100 \<le> PROMPT_COMPONENT env model"
  by (simp add: PROMPT_COMPONENT_def)

text \<open>
  C6. The budget component is \<open>max (maxTokens - PROMPT_INPUT_BUFFER) 100\<close>; the input
  is truncated to the floor of half of it and the condition to the floor of a fifth;
  the examples budget is the component minus the token counts of the truncated input
  and condition; and with a tokenizer whose truncation to \<open>n\<close> tokens counts at most
  \<open>n\<close>, the examples budget is not negative.
\<close>

theorem examples_budget:
  assumes "\<forall>t n. 0 \<le> n \<longrightarrow> int (tok_count tokenizer (tok_truncate tokenizer t n)) \<le> n"
  shows "PROMPT_COMPONENT env model = max (input_maxTokens model - PROMPT_INPUT_BUFFER env) 100
    \<and> inputAsString env tokenizer model input
        = tok_truncate tokenizer (stringify env input)
            \<lfloor>0.5 * real_of_int (PROMPT_COMPONENT env model)\<rfloor>
    \<and> truncatedCondition env tokenizer model condition
        = tok_truncate tokenizer condition \<lfloor>0.2 * real_of_int (PROMPT_COMPONENT env model)\<rfloor>
    \<and> EXAMPLES_TOKENS env tokenizer model input condition
        = PROMPT_COMPONENT env model
          - int (tok_count tokenizer (inputAsString env tokenizer model input))
          - int (tok_count tokenizer (truncatedCondition env tokenizer model condition))
    \<and> 0 \<le> EXAMPLES_TOKENS env tokenizer model input condition"
proof -
  let ?c = "PROMPT_COMPONENT env model"
  have c: "100 \<le> ?c" by (rule PROMPT_COMPONENT_ge)
  have i: "int (tok_count tokenizer (inputAsString env tokenizer model input)) \<le> ?c div 2"
    using assms c by (simp add: inputAsString_def PROMPT_TOKENS_INPUT_div)
  have k: "int (tok_count tokenizer (truncatedCondition env tokenizer model condition)) \<le> ?c div 5"
    using assms c by (simp add: truncatedCondition_def PROMPT_TOKENS_CONDITION_div)
  have "0 \<le> ?c - ?c div 2 - ?c div 5" using c by linarith
  with i k have "0 \<le> EXAMPLES_TOKENS env tokenizer model input condition"
    unfolding EXAMPLES_TOKENS_def by linarith
  then show ?thesis
    by (simp add: PROMPT_COMPONENT_def inputAsString_def truncatedCondition_def
        EXAMPLES_TOKENS_def PROMPT_TOKENS_INPUT_def PROMPT_TOKENS_CONDITION_def)
qed

lemma unitTokenizer_fits:
  "\<forall>t n. 0 \<le> n \<longrightarrow> int (tok_count unitTokenizer (tok_truncate unitTokenizer t n)) \<le> n"
  by (auto simp: unitTokenizer_def)

theorem examples_budget_witness:
  "PROMPT_COMPONENT plainEnv plainModel = 1000
   \<and> inputAsString plainEnv unitTokenizer plainModel (JString (of_ascii ''50 Cent''))
       = of_ascii ''50 Cent''
   \<and> EXAMPLES_TOKENS plainEnv unitTokenizer plainModel
        (JString (of_ascii ''50 Cent'')) (of_ascii ''Is it a person?'') = 978
   \<and> 0 \<le> EXAMPLES_TOKENS plainEnv unitTokenizer plainModel
        (JString (of_ascii ''50 Cent'')) (of_ascii ''Is it a person?'')"
proof -
  have h: "\<forall>t n. 0 \<le> n \<longrightarrow> int (tok_count unitTokenizer (tok_truncate unitTokenizer t n)) \<le> n"
    by (rule unitTokenizer_fits)
  have c: "PROMPT_COMPONENT plainEnv plainModel = 1000"
    by (simp add: PROMPT_COMPONENT_def plainEnv_def plainModel_def)
  have st: "\<And>t. stringify plainEnv (JString t) = t" by (simp add: plainEnv_def)
  have i: "inputAsString plainEnv unitTokenizer plainModel
             (JString (of_ascii ''50 Cent'')) = of_ascii ''50 Cent''"
    unfolding inputAsString_def c PROMPT_TOKENS_INPUT_div st
    by (simp add: unitTokenizer_def of_ascii_def)
  have k: "truncatedCondition plainEnv unitTokenizer plainModel
             (of_ascii ''Is it a person?'') = of_ascii ''Is it a person?''"
    unfolding truncatedCondition_def c PROMPT_TOKENS_CONDITION_div
    by (simp add: unitTokenizer_def of_ascii_def)
  have e: "EXAMPLES_TOKENS plainEnv unitTokenizer plainModel
        (JString (of_ascii ''50 Cent'')) (of_ascii ''Is it a person?'') = 978"
    unfolding EXAMPLES_TOKENS_def c i k by (simp add: unitTokenizer_def of_ascii_def)
  from c i e examples_budget [OF h, of plainEnv "plainModel"
      "JString (of_ascii ''50 Cent'')" "of_ascii ''Is it a person?''"]
  show ?thesis by simp
qed


lemma takeUntilTokensFrom_prefix:
  "takeUntilTokensFrom r arr t cost = take (length (takeUntilTokensFrom r arr t cost)) arr"
  by (induction arr arbitrary: r) auto

lemma takeUntilTokensFrom_within:
  "r \<le> t \<Longrightarrow> r + sum_list (map cost (takeUntilTokensFrom r arr t cost)) \<le> t"
proof (induction arr arbitrary: r)
  case Nil
  then show ?case by simp
next
  case (Cons el arr)
  show ?case
  proof (cases "r + cost el > t")
    case True
    with Cons.prems show ?thesis by simp
  next
    case False
    then have "r + cost el \<le> t" by simp
    from Cons.IH [OF this] False show ?thesis by (simp add: add.assoc)
  qed
qed

lemma takeUntilTokensFrom_longest:
  "(\<And>x. 0 \<le> cost x) \<Longrightarrow> n \<le> length arr \<Longrightarrow> r + sum_list (map cost (take n arr)) \<le> t
     \<Longrightarrow> n \<le> length (takeUntilTokensFrom r arr t cost)"
proof (induction arr arbitrary: r n)
  case Nil
  then show ?case by simp
next
  case (Cons el arr)
  show ?case
  proof (cases n)
    case 0
    then show ?thesis by simp
  next
    case (Suc m)
    with Cons.prems(3) have sum: "(r + cost el) + sum_list (map cost (take m arr)) \<le> t"
      by (simp add: add.assoc)
    have "0 \<le> sum_list (map cost (take m arr))"
      using Cons.prems(1) by (auto intro!: sum_list_nonneg)
    with sum have fits: "\<not> r + cost el > t" by linarith
    from Suc Cons.prems(2) have "m \<le> length arr" by simp
    from Cons.IH [OF Cons.prems(1) this sum]
    have "m \<le> length (takeUntilTokensFrom (r + cost el) arr t cost)" .
    with fits Suc show ?thesis by simp
  qed
qed

lemma takeUntilTokensFrom_stops:
  "takeUntilTokensFrom r arr t cost \<noteq> arr
     \<Longrightarrow> r + sum_list (map cost (take (Suc (length (takeUntilTokensFrom r arr t cost))) arr)) > t"
proof (induction arr arbitrary: r)
  case Nil
  then show ?case by simp
next
  case (Cons el arr)
  show ?case
  proof (cases "r + cost el > t")
    case True
    then show ?thesis by simp
  next
    case False
    with Cons.prems have "takeUntilTokensFrom (r + cost el) arr t cost \<noteq> arr" by simp
    from Cons.IH [OF this] False show ?thesis by (simp add: add.assoc)
  qed
qed

lemma exampleCost_nonneg: "0 \<le> exampleCost env tokenizer el"
  by (simp add: exampleCost_def)

section \<open>Runs of check: facts\<close>

text \<open>The explanation the parser returns is trimmed: trimming it again changes nothing.\<close>

lemma transform_trimmed: "transform text = Inr ext \<Longrightarrow> trim (explanation ext) = explanation ext"
  by (auto simp: transform_def Let_def trim_idem split: if_splits)

lemma check_setup:
  assumes "\<not> aborted_at_entry ctx" and "getTokenizer env = Inr tk" and "getModel ctx = Inr model"
  shows "check input condition options env ctx s =
     (case retrieveExamples ctx (inputAsString env tk model input) s of
        (Inl e, asked) \<Rightarrow>
          \<lparr>returned = Inl e, store = s,
           calls = setupCalls env tk model input condition @ asked\<rparr>
      | (Inr examples, asked) \<Rightarrow>
          (case find (\<lambda>x. st_key x = Key env (taskId ctx) (inputAsString env tk model input)
                                        (truncatedCondition env tk model condition)) examples of
             Some exactMatch \<Rightarrow>
               \<lparr>returned = Inr \<lparr>res_value = st_output exactMatch,
                                 res_explanation = orEmpty (st_explanation exactMatch)\<rparr>,
                store = s, calls = setupCalls env tk model input condition @ asked\<rparr>
           | None \<Rightarrow>
               freshVerdict env ctx tk (EXAMPLES_TOKENS env tk model input condition)
                 (Key env (taskId ctx) (inputAsString env tk model input)
                    (truncatedCondition env tk model condition))
                 (inputAsString env tk model input) (truncatedCondition env tk model condition)
                 examples options s (setupCalls env tk model input condition @ asked)))"
  using assms by (simp add: check_def Let_def)

lemma freshVerdict_unfold:
  "freshVerdict env ctx tk budget key input condition examples options s made =
     (case generateContent ctx (requestOf env tk budget input condition examples options) transform of
        Inl e \<Rightarrow>
          \<lparr>returned = Inl e, store = s,
           calls = made @ scanCalls env tk budget examples options
                   @ [Generate (requestOf env tk budget input condition examples options)]\<rparr>
      | Inr (ext, meta) \<Rightarrow>
          (case (if aborted_before_save ctx then None else taskAdapter ctx) of
             None \<Rightarrow>
               \<lparr>returned = Inr \<lparr>res_value = finalAnswer ext, res_explanation = trim (explanation ext)\<rparr>,
                store = s,
                calls = made @ scanCalls env tk budget examples options
                        @ [Generate (requestOf env tk budget input condition examples options)]\<rparr>
           | Some (tid, a) \<Rightarrow>
               (case saveExample a (savedExample ctx key tid input condition ext meta) s of
                  (Some e, s') \<Rightarrow>
                    \<lparr>returned = Inl e, store = s',
                     calls = made @ scanCalls env tk budget examples options
                        @ [Generate (requestOf env tk budget input condition examples options)]
                        @ [SaveExample (savedExample ctx key tid input condition ext meta)]\<rparr>
                | (None, s') \<Rightarrow>
                    \<lparr>returned = Inr \<lparr>res_value = finalAnswer ext,
                                      res_explanation = trim (explanation ext)\<rparr>,
                     store = s',
                     calls = made @ scanCalls env tk budget examples options
                        @ [Generate (requestOf env tk budget input condition examples options)]
                        @ [SaveExample (savedExample ctx key tid input condition ext meta)]\<rparr>)))"
  by (simp add: freshVerdict_def requestOf_def scanCalls_def packedExamples_def Let_def
      split: sum.splits option.splits prod.splits)

lemma setupCalls_kinds:
  "filter isModelCall (setupCalls env tk model input condition) = []"
  "filter isSaveCall (setupCalls env tk model input condition) = []"
  "filter isStoreCall (setupCalls env tk model input condition) = []"
  by (simp_all add: setupCalls_def)

lemma costCalls_kinds:
  "filter isModelCall (concat (map (costCalls env) xs)) = []"
  "filter isSaveCall (concat (map (costCalls env) xs)) = []"
  "filter isStoreCall (concat (map (costCalls env) xs)) = []"
  by (induction xs) (simp_all add: costCalls_def)

lemma scanCalls_kinds:
  "filter isModelCall (scanCalls env tk budget examples options) = []"
  "filter isSaveCall (scanCalls env tk budget examples options) = []"
  "filter isStoreCall (scanCalls env tk budget examples options) = []"
  by (simp_all add: scanCalls_def costCalls_kinds)

lemma taskAdapter_None: "taskId ctx = None \<Longrightarrow> taskAdapter ctx = None"
  by (simp add: taskAdapter_def)

lemma taskAdapter_Some:
  "taskId ctx = Some tid \<Longrightarrow> tid \<noteq> [] \<Longrightarrow> adapter ctx = Some a \<Longrightarrow> taskAdapter ctx = Some (tid, a)"
  by (simp add: taskAdapter_def)

lemma retrieveExamples_None: "taskAdapter ctx = None \<Longrightarrow> retrieveExamples ctx input s = (Inr [], [])"
  by (simp add: retrieveExamples_def)

lemma retrieveExamples_Some:
  "taskAdapter ctx = Some (tid, a) \<Longrightarrow>
     retrieveExamples ctx input s =
       (getExamples a \<lparr>q_input = input, q_taskType = taskType, q_taskId = tid\<rparr> s,
        [GetExamples \<lparr>q_input = input, q_taskType = taskType, q_taskId = tid\<rparr>])"
  by (simp add: retrieveExamples_def Let_def)

lemma retrieveExamples_kinds:
  "filter isModelCall (snd (retrieveExamples ctx input s)) = []"
  "filter isSaveCall (snd (retrieveExamples ctx input s)) = []"
  by (auto simp: retrieveExamples_def Let_def split: option.splits)

lemma freshVerdict_model_calls:
  "filter isModelCall (calls (freshVerdict env ctx tk budget key input condition examples options s made))
     = filter isModelCall made @ [Generate (requestOf env tk budget input condition examples options)]"
  by (simp add: freshVerdict_unfold scanCalls_kinds split: sum.splits option.splits prod.splits)

lemma freshVerdict_store_unchanged:
  "taskAdapter ctx = None \<Longrightarrow>
     store (freshVerdict env ctx tk budget key input condition examples options s made) = s
     \<and> filter isStoreCall (calls (freshVerdict env ctx tk budget key input condition examples options s made))
         = filter isStoreCall made"
  by (simp add: freshVerdict_unfold scanCalls_kinds split: sum.splits option.splits prod.splits)

lemma freshVerdict_answered:
  assumes "generateContent ctx (requestOf env tk budget input condition examples options) transform
             = Inr (ext, meta)"
  shows "freshVerdict env ctx tk budget key input condition examples options s made =
     (case (if aborted_before_save ctx then None else taskAdapter ctx) of
        None \<Rightarrow>
          \<lparr>returned = Inr \<lparr>res_value = finalAnswer ext, res_explanation = trim (explanation ext)\<rparr>,
           store = s,
           calls = made @ scanCalls env tk budget examples options
                   @ [Generate (requestOf env tk budget input condition examples options)]\<rparr>
      | Some (tid, a) \<Rightarrow>
          (case saveExample a (savedExample ctx key tid input condition ext meta) s of
             (Some e, s') \<Rightarrow>
               \<lparr>returned = Inl e, store = s',
                calls = made @ scanCalls env tk budget examples options
                   @ [Generate (requestOf env tk budget input condition examples options)]
                   @ [SaveExample (savedExample ctx key tid input condition ext meta)]\<rparr>
           | (None, s') \<Rightarrow>
               \<lparr>returned = Inr \<lparr>res_value = finalAnswer ext,
                                 res_explanation = trim (explanation ext)\<rparr>,
                store = s',
                calls = made @ scanCalls env tk budget examples options
                   @ [Generate (requestOf env tk budget input condition examples options)]
                   @ [SaveExample (savedExample ctx key tid input condition ext meta)]\<rparr>))"
  using assms by (simp add: freshVerdict_unfold)

text \<open>A run that calls the model: it got past the setup and found no exact match.\<close>

lemma check_model_call:
  assumes g: "Generate req \<in> set (calls (check input condition options env ctx s))"
  shows "\<exists>tk model examples asked.
           \<not> aborted_at_entry ctx \<and> getTokenizer env = Inr tk \<and> getModel ctx = Inr model
           \<and> retrieveExamples ctx (inputAsString env tk model input) s = (Inr examples, asked)
           \<and> req = requestOf env tk (EXAMPLES_TOKENS env tk model input condition)
                     (inputAsString env tk model input) (truncatedCondition env tk model condition)
                     examples options
           \<and> check input condition options env ctx s =
               freshVerdict env ctx tk (EXAMPLES_TOKENS env tk model input condition)
                 (Key env (taskId ctx) (inputAsString env tk model input)
                    (truncatedCondition env tk model condition))
                 (inputAsString env tk model input) (truncatedCondition env tk model condition)
                 examples options s (setupCalls env tk model input condition @ asked)"
proof -
  from g have m: "Generate req \<in> set (filter isModelCall (calls (check input condition options env ctx s)))"
    by simp
  have na: "\<not> aborted_at_entry ctx"
    using g by (auto simp: check_def)
  obtain tk where tk: "getTokenizer env = Inr tk"
    using g na by (cases "getTokenizer env") (auto simp: check_def)
  obtain model where model: "getModel ctx = Inr model"
    using g na tk by (cases "getModel ctx") (auto simp: check_def)
  note past = check_setup [OF na tk model, of "input" condition options s]
  obtain r asked where ra: "retrieveExamples ctx (inputAsString env tk model input) s = (r, asked)"
    by (cases "retrieveExamples ctx (inputAsString env tk model input) s") auto
  have asked: "filter isModelCall asked = []"
    using retrieveExamples_kinds(1) [of ctx "inputAsString env tk model input" s] ra by simp
  show ?thesis
  proof (cases r)
    case (Inl e)
    with m past ra asked show ?thesis by (simp add: setupCalls_kinds)
  next
    case (Inr examples)
    show ?thesis
    proof (cases "find (\<lambda>x. st_key x = Key env (taskId ctx) (inputAsString env tk model input)
                                        (truncatedCondition env tk model condition)) examples")
      case (Some exactMatch)
      with m past ra Inr asked show ?thesis by (simp add: setupCalls_kinds)
    next
      case None
      with past ra Inr have c: "check input condition options env ctx s =
               freshVerdict env ctx tk (EXAMPLES_TOKENS env tk model input condition)
                 (Key env (taskId ctx) (inputAsString env tk model input)
                    (truncatedCondition env tk model condition))
                 (inputAsString env tk model input) (truncatedCondition env tk model condition)
                 examples options s (setupCalls env tk model input condition @ asked)"
        by simp
      from m have "req = requestOf env tk (EXAMPLES_TOKENS env tk model input condition)
                     (inputAsString env tk model input) (truncatedCondition env tk model condition)
                     examples options"
        unfolding c freshVerdict_model_calls using asked by (simp add: setupCalls_kinds)
      with na tk model ra Inr c show ?thesis by blast
    qed
  qed
qed

text \<open>A run that finds an exact match.\<close>

lemma check_hit:
  assumes "\<not> aborted_at_entry ctx" and "getTokenizer env = Inr tk" and "getModel ctx = Inr model"
    and "taskId ctx = Some tid" and "tid \<noteq> []" and "adapter ctx = Some a"
    and "getExamples a \<lparr>q_input = inputAsString env tk model input, q_taskType = taskType,
                        q_taskId = tid\<rparr> s = Inr examples"
    and "find (\<lambda>x. st_key x = Key env (Some tid) (inputAsString env tk model input)
                                  (truncatedCondition env tk model condition)) examples = Some r"
  shows "check input condition options env ctx s =
     \<lparr>returned = Inr \<lparr>res_value = st_output r, res_explanation = orEmpty (st_explanation r)\<rparr>,
      store = s,
      calls = setupCalls env tk model input condition
              @ [GetExamples \<lparr>q_input = inputAsString env tk model input, q_taskType = taskType,
                              q_taskId = tid\<rparr>]\<rparr>"
proof -
  have ta: "taskAdapter ctx = Some (tid, a)" using assms(4-6) by (rule taskAdapter_Some)
  show ?thesis
    unfolding check_setup [OF assms(1-3)] retrieveExamples_Some [OF ta]
    using assms(4,7,8) by simp
qed

lemma plain_stringify: "stringify plainEnv (JString t) = t"
  by (simp add: plainEnv_def)

lemma plain_component: "PROMPT_COMPONENT plainEnv plainModel = 1000"
  by (simp add: PROMPT_COMPONENT_def plainEnv_def plainModel_def)

lemma plain_input: "inputAsString plainEnv unitTokenizer plainModel rapper = of_ascii ''50 Cent''"
  unfolding inputAsString_def plain_component PROMPT_TOKENS_INPUT_div rapper_def plain_stringify
  by (simp add: unitTokenizer_def of_ascii_def)

lemma plain_condition: "truncatedCondition plainEnv unitTokenizer plainModel isPerson = isPerson"
  unfolding truncatedCondition_def plain_component PROMPT_TOKENS_CONDITION_div isPerson_def
  by (simp add: unitTokenizer_def of_ascii_def)

lemma plain_tokenizer: "getTokenizer plainEnv = Inr unitTokenizer"
  by (simp add: plainEnv_def)

lemma plainCtx_fields:
  "\<not> aborted_at_entry (plainCtx tid a answer)"
  "\<not> aborted_before_save (plainCtx tid a answer)"
  "taskId (plainCtx tid a answer) = tid"
  "adapter (plainCtx tid a answer) = a"
  "getModel (plainCtx tid a answer) = Inr plainModel"
  "generateContent (plainCtx tid a answer) req callback
     = (case callback answer of Inl e \<Rightarrow> Inl e | Inr x \<Rightarrow> Inr (x, plainMeta))"
  "modelId (plainCtx tid a answer) = of_ascii ''best''"
  by (simp_all add: plainCtx_def singleCompletion_def)

lemma task1_not_empty: "task1 \<noteq> []"
  by (simp add: task1_def of_ascii_def)

lemma known_retrieved:
  "getExamples listAdapter \<lparr>q_input = i, q_taskType = t, q_taskId = task1\<rparr> [knownAnswer]
     = Inr [asRetrieved knownAnswer]"
  by (simp add: listAdapter_def knownAnswer_def)

lemma known_fields:
  "st_key (asRetrieved knownAnswer) = Key plainEnv (Some task1) (of_ascii ''50 Cent'') isPerson"
  "st_output (asRetrieved knownAnswer) = True"
  "st_explanation (asRetrieved knownAnswer) = Some (of_ascii ''A rapper.'')"
  by (simp_all add: asRetrieved_def knownAnswer_def)

text \<open>
  C1. A run with a task id whose retrieved examples contain a record with the key of
  this call (the hash of task type, task id, truncated input and truncated condition)
  returns the output and the explanation of the first such record (the empty string
  when it has none), leaves the store as it was, and calls neither
  \<^verbatim>\<open>ctx.generateContent\<close> nor \<^verbatim>\<open>saveExample\<close> (the tokenizer, \<^verbatim>\<open>ctx.getModel\<close> and
  \<^verbatim>\<open>getExamples\<close> are called). Hence any further call with the same input, condition,
  task id, adapter and model description on the store it leaves gives the same outcome,
  whatever its options and whatever the model would answer.
\<close>

theorem check_exact_match:
  assumes "\<not> aborted_at_entry ctx" and "getTokenizer env = Inr tk" and "getModel ctx = Inr model"
    and "taskId ctx = Some tid" and "tid \<noteq> []" and "adapter ctx = Some a"
    and "getExamples a \<lparr>q_input = inputAsString env tk model input, q_taskType = taskType,
                        q_taskId = tid\<rparr> s = Inr examples"
    and "\<exists>x\<in>set examples. st_key x = Key env (Some tid) (inputAsString env tk model input)
                                          (truncatedCondition env tk model condition)"
  shows "\<exists>r. find (\<lambda>x. st_key x = Key env (Some tid) (inputAsString env tk model input)
                                     (truncatedCondition env tk model condition)) examples = Some r
     \<and> returned (check input condition options env ctx s)
         = Inr \<lparr>res_value = st_output r, res_explanation = orEmpty (st_explanation r)\<rparr>
     \<and> store (check input condition options env ctx s) = s
     \<and> filter isModelCall (calls (check input condition options env ctx s)) = []
     \<and> filter isSaveCall (calls (check input condition options env ctx s)) = []
     \<and> (\<forall>options' ctx'.
           \<not> aborted_at_entry ctx' \<and> getModel ctx' = getModel ctx \<and> taskId ctx' = taskId ctx
           \<and> adapter ctx' = adapter ctx
           \<longrightarrow> check input condition options' env ctx' (store (check input condition options env ctx s))
               = check input condition options env ctx s)"
proof -
  let ?key = "Key env (Some tid) (inputAsString env tk model input)
                (truncatedCondition env tk model condition)"
  from assms(8) obtain r where r: "find (\<lambda>x. st_key x = ?key) examples = Some r"
    by (cases "find (\<lambda>x. st_key x = ?key) examples") (auto simp: find_None_iff)
  note hit = check_hit [OF _ assms(2) _ _ assms(5) _ _ r]
  have first: "check input condition options env ctx s =
     \<lparr>returned = Inr \<lparr>res_value = st_output r, res_explanation = orEmpty (st_explanation r)\<rparr>,
      store = s,
      calls = setupCalls env tk model input condition
              @ [GetExamples \<lparr>q_input = inputAsString env tk model input, q_taskType = taskType,
                              q_taskId = tid\<rparr>]\<rparr>"
    by (rule hit [OF assms(1) assms(3) assms(4) assms(6) assms(7)])
  have again: "check input condition options' env ctx' s = check input condition options env ctx s"
    if "\<not> aborted_at_entry ctx' \<and> getModel ctx' = getModel ctx \<and> taskId ctx' = taskId ctx
        \<and> adapter ctx' = adapter ctx" for options' ctx'
  proof -
    from that assms have "\<not> aborted_at_entry ctx'" "getModel ctx' = Inr model"
      "taskId ctx' = Some tid" "adapter ctx' = Some a" by simp_all
    from hit [OF this(1) this(2) this(3) this(4) assms(7)] first show ?thesis by simp
  qed
  from r first again show ?thesis by (simp add: setupCalls_kinds)
qed

text \<open>
  C8. With the signal set at entry, \<^verbatim>\<open>check\<close> rejects with the abort reason, makes no
  call at all (tokenizer, store or model) and leaves the store as it was. With the
  signal not set at entry and set when line 233 reads it, in a run where
  \<^verbatim>\<open>ctx.generateContent\<close> was called and resolved with a verdict, the verdict and the
  trimmed explanation are returned, the store is as it was and \<^verbatim>\<open>saveExample\<close> is not
  called.
\<close>

theorem check_cancellation:
  "(aborted_at_entry ctx \<longrightarrow>
      check input condition options env ctx s
        = \<lparr>returned = Inl Cancelled, store = s, calls = []\<rparr>)
   \<and> (\<not> aborted_at_entry ctx \<and> aborted_before_save ctx
        \<and> Generate req \<in> set (calls (check input condition options env ctx s))
        \<and> generateContent ctx req transform = Inr (ext, meta)
      \<longrightarrow> returned (check input condition options env ctx s)
            = Inr \<lparr>res_value = finalAnswer ext, res_explanation = trim (explanation ext)\<rparr>
          \<and> store (check input condition options env ctx s) = s
          \<and> filter isSaveCall (calls (check input condition options env ctx s)) = [])"
proof (rule conjI; rule impI)
  assume "aborted_at_entry ctx"
  then show "check input condition options env ctx s
        = \<lparr>returned = Inl Cancelled, store = s, calls = []\<rparr>"
    by (simp add: check_def)
next
  assume a: "\<not> aborted_at_entry ctx \<and> aborted_before_save ctx
        \<and> Generate req \<in> set (calls (check input condition options env ctx s))
        \<and> generateContent ctx req transform = Inr (ext, meta)"
  then have g: "Generate req \<in> set (calls (check input condition options env ctx s))" by simp
  from check_model_call [OF g] obtain tk model examples asked where
    ra: "retrieveExamples ctx (inputAsString env tk model input) s = (Inr examples, asked)"
    and req: "req = requestOf env tk (EXAMPLES_TOKENS env tk model input condition)
                     (inputAsString env tk model input) (truncatedCondition env tk model condition)
                     examples options"
    and c: "check input condition options env ctx s =
               freshVerdict env ctx tk (EXAMPLES_TOKENS env tk model input condition)
                 (Key env (taskId ctx) (inputAsString env tk model input)
                    (truncatedCondition env tk model condition))
                 (inputAsString env tk model input) (truncatedCondition env tk model condition)
                 examples options s (setupCalls env tk model input condition @ asked)"
    by blast
  from a req have gen: "generateContent ctx
                     (requestOf env tk (EXAMPLES_TOKENS env tk model input condition)
                     (inputAsString env tk model input) (truncatedCondition env tk model condition)
                     examples options) transform = Inr (ext, meta)" by simp
  from a have ab: "aborted_before_save ctx" by simp
  have asked: "filter isSaveCall asked = []"
    using retrieveExamples_kinds(2) [of ctx "inputAsString env tk model input" s] ra by simp
  show "returned (check input condition options env ctx s)
            = Inr \<lparr>res_value = finalAnswer ext, res_explanation = trim (explanation ext)\<rparr>
          \<and> store (check input condition options env ctx s) = s
          \<and> filter isSaveCall (calls (check input condition options env ctx s)) = []"
    unfolding c freshVerdict_answered [OF gen]
    using ab asked by (simp add: setupCalls_kinds scanCalls_kinds)
qed

text \<open>
  C9. Without a task id no call goes to the store (neither \<^verbatim>\<open>getExamples\<close> nor
  \<^verbatim>\<open>saveExample\<close>) and the store is as it was. When the run is not cancelled at entry
  and has its tokenizer and model description, \<^verbatim>\<open>ctx.generateContent\<close> is called
  exactly once, with the request built from no retrieved example, and the run returns
  what that generation gives: its error, or its verdict and trimmed explanation.
\<close>

theorem check_without_taskId:
  assumes "taskId ctx = None"
  shows "store (check input condition options env ctx s) = s
    \<and> filter isStoreCall (calls (check input condition options env ctx s)) = []
    \<and> (\<not> aborted_at_entry ctx \<and> getTokenizer env = Inr tk \<and> getModel ctx = Inr model \<longrightarrow>
         filter isModelCall (calls (check input condition options env ctx s))
           = [Generate (requestOf env tk (EXAMPLES_TOKENS env tk model input condition)
                (inputAsString env tk model input) (truncatedCondition env tk model condition)
                [] options)]
         \<and> returned (check input condition options env ctx s)
             = (case generateContent ctx
                       (requestOf env tk (EXAMPLES_TOKENS env tk model input condition)
                          (inputAsString env tk model input)
                          (truncatedCondition env tk model condition) [] options) transform of
                  Inl e \<Rightarrow> Inl e
                | Inr (ext, meta) \<Rightarrow>
                    Inr \<lparr>res_value = finalAnswer ext, res_explanation = trim (explanation ext)\<rparr>))"
proof -
  have ta: "taskAdapter ctx = None" using assms by (rule taskAdapter_None)
  have past: "check input condition options env ctx s =
               freshVerdict env ctx tk (EXAMPLES_TOKENS env tk model input condition)
                 (Key env (taskId ctx) (inputAsString env tk model input)
                    (truncatedCondition env tk model condition))
                 (inputAsString env tk model input) (truncatedCondition env tk model condition)
                 [] options s (setupCalls env tk model input condition @ [])"
    if "\<not> aborted_at_entry ctx" "getTokenizer env = Inr tk" "getModel ctx = Inr model"
    for tk model
    unfolding check_setup [OF that] retrieveExamples_None [OF ta] by simp
  have frame: "store (check input condition options env ctx s) = s
    \<and> filter isStoreCall (calls (check input condition options env ctx s)) = []"
  proof (cases "aborted_at_entry ctx")
    case True
    then show ?thesis by (simp add: check_def)
  next
    case na: False
    show ?thesis
    proof (cases "getTokenizer env")
      case (Inl e)
      with na show ?thesis by (simp add: check_def)
    next
      case tk: (Inr tk')
      show ?thesis
      proof (cases "getModel ctx")
        case (Inl e)
        with na tk show ?thesis by (simp add: check_def)
      next
        case (Inr model')
        show ?thesis
          unfolding past [OF na tk Inr]
          by (simp add: freshVerdict_store_unchanged [OF ta] setupCalls_kinds)
      qed
    qed
  qed
  have run: "filter isModelCall (calls (check input condition options env ctx s))
           = [Generate (requestOf env tk (EXAMPLES_TOKENS env tk model input condition)
                (inputAsString env tk model input) (truncatedCondition env tk model condition)
                [] options)]
         \<and> returned (check input condition options env ctx s)
             = (case generateContent ctx
                       (requestOf env tk (EXAMPLES_TOKENS env tk model input condition)
                          (inputAsString env tk model input)
                          (truncatedCondition env tk model condition) [] options) transform of
                  Inl e \<Rightarrow> Inl e
                | Inr (ext, meta) \<Rightarrow>
                    Inr \<lparr>res_value = finalAnswer ext, res_explanation = trim (explanation ext)\<rparr>)"
    if h: "\<not> aborted_at_entry ctx \<and> getTokenizer env = Inr tk \<and> getModel ctx = Inr model"
  proof -
    from h have p: "check input condition options env ctx s =
               freshVerdict env ctx tk (EXAMPLES_TOKENS env tk model input condition)
                 (Key env (taskId ctx) (inputAsString env tk model input)
                    (truncatedCondition env tk model condition))
                 (inputAsString env tk model input) (truncatedCondition env tk model condition)
                 [] options s (setupCalls env tk model input condition @ [])"
      using past by blast
    have m: "filter isModelCall (calls (check input condition options env ctx s))
           = [Generate (requestOf env tk (EXAMPLES_TOKENS env tk model input condition)
                (inputAsString env tk model input) (truncatedCondition env tk model condition)
                [] options)]"
      unfolding p freshVerdict_model_calls by (simp add: setupCalls_kinds)
    have r: "returned (check input condition options env ctx s)
             = (case generateContent ctx
                       (requestOf env tk (EXAMPLES_TOKENS env tk model input condition)
                          (inputAsString env tk model input)
                          (truncatedCondition env tk model condition) [] options) transform of
                  Inl e \<Rightarrow> Inl e
                | Inr (ext, meta) \<Rightarrow>
                    Inr \<lparr>res_value = finalAnswer ext, res_explanation = trim (explanation ext)\<rparr>)"
      unfolding p freshVerdict_unfold using ta
      by (auto split: sum.splits prod.splits)
    from m r show ?thesis by simp
  qed
  from frame run show ?thesis by blast
qed

lemma no_save_member: "filter isSaveCall xs = [] \<Longrightarrow> SaveExample sv \<notin> set xs"
  by (force simp: filter_empty_conv)

lemma save_member_filter: "SaveExample sv \<in> set xs \<Longrightarrow> filter isSaveCall xs \<noteq> []"
  by (force simp: filter_empty_conv)

lemma check_paths:
  "(filter isModelCall (calls (check input condition options env ctx s)) = []
      \<and> filter isSaveCall (calls (check input condition options env ctx s)) = [])
   \<or> (\<exists>tk model examples asked.
         \<not> aborted_at_entry ctx \<and> getTokenizer env = Inr tk \<and> getModel ctx = Inr model
         \<and> retrieveExamples ctx (inputAsString env tk model input) s = (Inr examples, asked)
         \<and> check input condition options env ctx s =
               freshVerdict env ctx tk (EXAMPLES_TOKENS env tk model input condition)
                 (Key env (taskId ctx) (inputAsString env tk model input)
                    (truncatedCondition env tk model condition))
                 (inputAsString env tk model input) (truncatedCondition env tk model condition)
                 examples options s (setupCalls env tk model input condition @ asked))"
proof (cases "aborted_at_entry ctx")
  case True
  then show ?thesis by (simp add: check_def)
next
  case na: False
  show ?thesis
  proof (cases "getTokenizer env")
    case (Inl e)
    with na show ?thesis by (simp add: check_def)
  next
    case tk: (Inr tk)
    show ?thesis
    proof (cases "getModel ctx")
      case (Inl e)
      with na tk show ?thesis by (simp add: check_def)
    next
      case model: (Inr model)
      note past = check_setup [OF na tk model, of "input" condition options s]
      obtain r asked where ra: "retrieveExamples ctx (inputAsString env tk model input) s = (r, asked)"
        by (cases "retrieveExamples ctx (inputAsString env tk model input) s") auto
      have asked: "filter isModelCall asked = []" "filter isSaveCall asked = []"
        using retrieveExamples_kinds [of ctx "inputAsString env tk model input" s] ra by simp_all
      show ?thesis
      proof (cases r)
        case (Inl e)
        with past ra asked show ?thesis by (simp add: setupCalls_kinds)
      next
        case (Inr examples)
        show ?thesis
        proof (cases "find (\<lambda>x. st_key x = Key env (taskId ctx) (inputAsString env tk model input)
                                        (truncatedCondition env tk model condition)) examples")
          case (Some exactMatch)
          with past ra Inr asked show ?thesis by (simp add: setupCalls_kinds)
        next
          case None
          with past ra Inr have "check input condition options env ctx s =
               freshVerdict env ctx tk (EXAMPLES_TOKENS env tk model input condition)
                 (Key env (taskId ctx) (inputAsString env tk model input)
                    (truncatedCondition env tk model condition))
                 (inputAsString env tk model input) (truncatedCondition env tk model condition)
                 examples options s (setupCalls env tk model input condition @ asked)"
            by simp
          with na tk model ra Inr show ?thesis by blast
        qed
      qed
    qed
  qed
qed

lemma freshVerdict_save_filter:
  "filter isSaveCall made = [] \<Longrightarrow>
     filter isSaveCall (calls (freshVerdict env ctx tk budget key input condition examples options s made)) = []
     \<or> (\<exists>tid ext meta.
           filter isSaveCall (calls (freshVerdict env ctx tk budget key input condition examples options s made))
             = [SaveExample (savedExample ctx key tid input condition ext meta)])"
  by (auto simp: freshVerdict_unfold scanCalls_kinds split: sum.splits option.splits prod.splits)

lemma freshVerdict_save_calls:
  assumes "SaveExample sv \<in> set (calls (freshVerdict env ctx tk budget key input condition examples options s made))"
    and "filter isSaveCall made = []"
  shows "\<exists>tid ext meta. sv = savedExample ctx key tid input condition ext meta"
proof -
  let ?C = "calls (freshVerdict env ctx tk budget key input condition examples options s made)"
  from assms(1) have m: "SaveExample sv \<in> set (filter isSaveCall ?C)" by simp
  from freshVerdict_save_filter [OF assms(2)]
  have "filter isSaveCall ?C = []
     \<or> (\<exists>tid ext meta. filter isSaveCall ?C
             = [SaveExample (savedExample ctx key tid input condition ext meta)])" .
  then show ?thesis
  proof
    assume e: "filter isSaveCall ?C = []"
    from m show ?thesis unfolding e by simp
  next
    assume "\<exists>tid ext meta. filter isSaveCall ?C
             = [SaveExample (savedExample ctx key tid input condition ext meta)]"
    then obtain tid ext meta where e: "filter isSaveCall ?C
             = [SaveExample (savedExample ctx key tid input condition ext meta)]" by blast
    from m have "sv = savedExample ctx key tid input condition ext meta" unfolding e by simp
    then show ?thesis by blast
  qed
qed

lemma check_save_call:
  assumes "SaveExample sv \<in> set (calls (check input condition options env ctx s))"
  shows "\<exists>tk model tid ext meta. getTokenizer env = Inr tk \<and> getModel ctx = Inr model
           \<and> sv = savedExample ctx
                    (Key env (taskId ctx) (inputAsString env tk model input)
                       (truncatedCondition env tk model condition))
                    tid (inputAsString env tk model input)
                    (truncatedCondition env tk model condition) ext meta"
proof -
  from assms have m: "filter isSaveCall (calls (check input condition options env ctx s)) \<noteq> []"
    by (rule save_member_filter)
  with check_paths [of "input" condition options env ctx s]
  obtain tk model examples asked where tk: "getTokenizer env = Inr tk" and model: "getModel ctx = Inr model"
    and ra: "retrieveExamples ctx (inputAsString env tk model input) s = (Inr examples, asked)"
    and c: "check input condition options env ctx s =
               freshVerdict env ctx tk (EXAMPLES_TOKENS env tk model input condition)
                 (Key env (taskId ctx) (inputAsString env tk model input)
                    (truncatedCondition env tk model condition))
                 (inputAsString env tk model input) (truncatedCondition env tk model condition)
                 examples options s (setupCalls env tk model input condition @ asked)"
    by blast
  have asked: "filter isSaveCall asked = []"
    using retrieveExamples_kinds(2) [of ctx "inputAsString env tk model input" s] ra by simp
  have "filter isSaveCall (setupCalls env tk model input condition @ asked) = []"
    using asked by (simp add: setupCalls_kinds)
  from freshVerdict_save_calls [OF assms [unfolded c] this] tk model show ?thesis by blast
qed

text \<open>
  C10. The key does not depend on the caller's examples: on an exact match, two calls
  that differ only in \<^verbatim>\<open>options.examples\<close> have the same outcome (the stored answer);
  and whatever the caller's examples, a record that a run saves has the key computed
  from the task type, the task id and the truncated input and condition.
\<close>

theorem check_key_ignores_caller_examples:
  "(\<not> aborted_at_entry ctx \<and> getTokenizer env = Inr tk \<and> getModel ctx = Inr model
      \<and> taskId ctx = Some tid \<and> tid \<noteq> [] \<and> adapter ctx = Some a
      \<and> getExamples a \<lparr>q_input = inputAsString env tk model input, q_taskType = taskType,
                        q_taskId = tid\<rparr> s = Inr examples
      \<and> (\<exists>x\<in>set examples. st_key x = Key env (Some tid) (inputAsString env tk model input)
                                          (truncatedCondition env tk model condition))
    \<longrightarrow> check input condition \<lparr>opt_examples = given1\<rparr> env ctx s
          = check input condition \<lparr>opt_examples = given2\<rparr> env ctx s)
   \<and> (\<forall>sv. SaveExample sv \<in> set (calls (check input condition \<lparr>opt_examples = given1\<rparr> env ctx s))
        \<longrightarrow> (\<exists>tk model. getTokenizer env = Inr tk \<and> getModel ctx = Inr model
              \<and> sv_key sv = Key env (taskId ctx) (inputAsString env tk model input)
                               (truncatedCondition env tk model condition)))"
proof (rule conjI; intro impI allI)
  assume h: "\<not> aborted_at_entry ctx \<and> getTokenizer env = Inr tk \<and> getModel ctx = Inr model
      \<and> taskId ctx = Some tid \<and> tid \<noteq> [] \<and> adapter ctx = Some a
      \<and> getExamples a \<lparr>q_input = inputAsString env tk model input, q_taskType = taskType,
                        q_taskId = tid\<rparr> s = Inr examples
      \<and> (\<exists>x\<in>set examples. st_key x = Key env (Some tid) (inputAsString env tk model input)
                                          (truncatedCondition env tk model condition))"
  let ?key = "Key env (Some tid) (inputAsString env tk model input)
                (truncatedCondition env tk model condition)"
  from h obtain r where r: "find (\<lambda>x. st_key x = ?key) examples = Some r"
    by (cases "find (\<lambda>x. st_key x = ?key) examples") (auto simp: find_None_iff)
  from h have p: "\<not> aborted_at_entry ctx" "getTokenizer env = Inr tk" "getModel ctx = Inr model"
    "taskId ctx = Some tid" "tid \<noteq> []" "adapter ctx = Some a"
    "getExamples a \<lparr>q_input = inputAsString env tk model input, q_taskType = taskType,
                        q_taskId = tid\<rparr> s = Inr examples"
    by simp_all
  show "check input condition \<lparr>opt_examples = given1\<rparr> env ctx s
          = check input condition \<lparr>opt_examples = given2\<rparr> env ctx s"
    by (simp only: check_hit [OF p r])
next
  fix sv
  assume "SaveExample sv \<in> set (calls (check input condition \<lparr>opt_examples = given1\<rparr> env ctx s))"
  from check_save_call [OF this]
  show "\<exists>tk model. getTokenizer env = Inr tk \<and> getModel ctx = Inr model
              \<and> sv_key sv = Key env (taskId ctx) (inputAsString env tk model input)
                               (truncatedCondition env tk model condition)"
    by (auto simp: savedExample_def)
qed

text \<open>
  C4, amended. In a run where \<^verbatim>\<open>ctx.generateContent\<close> was called and resolved with a
  verdict: when no write was attempted, the computed value and explanation are returned
  and the store is as it was; when \<^verbatim>\<open>saveExample\<close> was called, the run returns the
  computed value and explanation if the write succeeded and rejects with the error of
  the write if it failed, and the store is the one the write left.
\<close>

theorem check_save_outcome:
  assumes "Generate req \<in> set (calls (check input condition options env ctx s))"
    and "generateContent ctx req transform = Inr (ext, meta)"
  shows "(filter isSaveCall (calls (check input condition options env ctx s)) = [] \<longrightarrow>
            returned (check input condition options env ctx s)
              = Inr \<lparr>res_value = finalAnswer ext, res_explanation = trim (explanation ext)\<rparr>
            \<and> store (check input condition options env ctx s) = s)
     \<and> (\<forall>sv. SaveExample sv \<in> set (calls (check input condition options env ctx s)) \<longrightarrow>
            (\<exists>tid a. taskAdapter ctx = Some (tid, a) \<and> \<not> aborted_before_save ctx
               \<and> returned (check input condition options env ctx s)
                   = (case fst (saveExample a sv s) of
                        Some e \<Rightarrow> Inl e
                      | None \<Rightarrow> Inr \<lparr>res_value = finalAnswer ext,
                                      res_explanation = trim (explanation ext)\<rparr>)
               \<and> store (check input condition options env ctx s) = snd (saveExample a sv s)))"
proof -
  from check_model_call [OF assms(1)] obtain tk model examples asked where
    ra: "retrieveExamples ctx (inputAsString env tk model input) s = (Inr examples, asked)"
    and req: "req = requestOf env tk (EXAMPLES_TOKENS env tk model input condition)
                     (inputAsString env tk model input) (truncatedCondition env tk model condition)
                     examples options"
    and c: "check input condition options env ctx s =
               freshVerdict env ctx tk (EXAMPLES_TOKENS env tk model input condition)
                 (Key env (taskId ctx) (inputAsString env tk model input)
                    (truncatedCondition env tk model condition))
                 (inputAsString env tk model input) (truncatedCondition env tk model condition)
                 examples options s (setupCalls env tk model input condition @ asked)"
    by blast
  from assms(2) req have gen: "generateContent ctx
                     (requestOf env tk (EXAMPLES_TOKENS env tk model input condition)
                     (inputAsString env tk model input) (truncatedCondition env tk model condition)
                     examples options) transform = Inr (ext, meta)" by simp
  have asked: "filter isSaveCall asked = []"
    using retrieveExamples_kinds(2) [of ctx "inputAsString env tk model input" s] ra by simp
  show ?thesis
    unfolding c freshVerdict_answered [OF gen]
    using asked
    by (auto simp: setupCalls_kinds scanCalls_kinds no_save_member [OF setupCalls_kinds(2)]
          no_save_member [OF scanCalls_kinds(2)] no_save_member [OF asked]
        split: option.splits prod.splits)
qed

lemma check_miss_answered:
  assumes "\<not> aborted_at_entry ctx" and "getTokenizer env = Inr tk" and "getModel ctx = Inr model"
    and "retrieveExamples ctx (inputAsString env tk model input) s = (Inr examples, asked)"
    and "find (\<lambda>x. st_key x = Key env (taskId ctx) (inputAsString env tk model input)
                                  (truncatedCondition env tk model condition)) examples = None"
    and "generateContent ctx (requestOf env tk (EXAMPLES_TOKENS env tk model input condition)
           (inputAsString env tk model input) (truncatedCondition env tk model condition)
           examples options) transform = Inr (ext, meta)"
  shows "check input condition options env ctx s =
     (case (if aborted_before_save ctx then None else taskAdapter ctx) of
        None \<Rightarrow>
          \<lparr>returned = Inr \<lparr>res_value = finalAnswer ext, res_explanation = trim (explanation ext)\<rparr>,
           store = s,
           calls = (setupCalls env tk model input condition @ asked)
                   @ scanCalls env tk (EXAMPLES_TOKENS env tk model input condition) examples options
                   @ [Generate (requestOf env tk (EXAMPLES_TOKENS env tk model input condition)
                        (inputAsString env tk model input)
                        (truncatedCondition env tk model condition) examples options)]\<rparr>
      | Some (tid, a) \<Rightarrow>
          (case saveExample a
                  (savedExample ctx
                     (Key env (taskId ctx) (inputAsString env tk model input)
                        (truncatedCondition env tk model condition))
                     tid (inputAsString env tk model input)
                     (truncatedCondition env tk model condition) ext meta) s of
             (Some e, s') \<Rightarrow>
               \<lparr>returned = Inl e, store = s',
                calls = (setupCalls env tk model input condition @ asked)
                   @ scanCalls env tk (EXAMPLES_TOKENS env tk model input condition) examples options
                   @ [Generate (requestOf env tk (EXAMPLES_TOKENS env tk model input condition)
                        (inputAsString env tk model input)
                        (truncatedCondition env tk model condition) examples options)]
                   @ [SaveExample (savedExample ctx
                     (Key env (taskId ctx) (inputAsString env tk model input)
                        (truncatedCondition env tk model condition))
                     tid (inputAsString env tk model input)
                     (truncatedCondition env tk model condition) ext meta)]\<rparr>
           | (None, s') \<Rightarrow>
               \<lparr>returned = Inr \<lparr>res_value = finalAnswer ext, res_explanation = trim (explanation ext)\<rparr>,
                store = s',
                calls = (setupCalls env tk model input condition @ asked)
                   @ scanCalls env tk (EXAMPLES_TOKENS env tk model input condition) examples options
                   @ [Generate (requestOf env tk (EXAMPLES_TOKENS env tk model input condition)
                        (inputAsString env tk model input)
                        (truncatedCondition env tk model condition) examples options)]
                   @ [SaveExample (savedExample ctx
                     (Key env (taskId ctx) (inputAsString env tk model input)
                        (truncatedCondition env tk model condition))
                     tid (inputAsString env tk model input)
                     (truncatedCondition env tk model condition) ext meta)]\<rparr>))"
proof -
  have "check input condition options env ctx s =
               freshVerdict env ctx tk (EXAMPLES_TOKENS env tk model input condition)
                 (Key env (taskId ctx) (inputAsString env tk model input)
                    (truncatedCondition env tk model condition))
                 (inputAsString env tk model input) (truncatedCondition env tk model condition)
                 examples options s (setupCalls env tk model input condition @ asked)"
    unfolding check_setup [OF assms(1-3)] using assms(4,5) by simp
  then show ?thesis by (simp only: freshVerdict_answered [OF assms(6)])
qed

lemma plain_transform: "transform rapperAnswer = Inr plainVerdict"
  by (simp add: rapperAnswer_def plainVerdict_def transform_def marker_codes str_eval)

lemma plain_generation:
  "generateContent (plainCtx tid a rapperAnswer) req transform = Inr (plainVerdict, plainMeta)"
  by (simp add: plainCtx_fields(6) plain_transform)

lemma plain_result:
  "finalAnswer plainVerdict = True"
  "trim (explanation plainVerdict) = of_ascii ''A rapper.''"
  by (simp_all add: plainVerdict_def str_eval)

lemma plain_retrieve_none:
  "retrieveExamples (plainCtx None a answer) i s = (Inr [], [])"
  by (simp add: retrieveExamples_None taskAdapter_None plainCtx_fields)

lemma plain_retrieve_empty:
  "retrieveExamples (plainCtx (Some task1) (Some listAdapter) answer) i [] =
     (Inr [], [GetExamples \<lparr>q_input = i, q_taskType = taskType, q_taskId = task1\<rparr>])"
  by (simp add: retrieveExamples_def taskAdapter_def plainCtx_fields task1_not_empty
      listAdapter_def Let_def)

lemma plain_retrieve_empty_failing:
  "retrieveExamples (plainCtx (Some task1) (Some failingAdapter) answer) i [] =
     (Inr [], [GetExamples \<lparr>q_input = i, q_taskType = taskType, q_taskId = task1\<rparr>])"
  by (simp add: retrieveExamples_def taskAdapter_def plainCtx_fields task1_not_empty
      failingAdapter_def Let_def)

text \<open>
  C4, as the claim states it, fails: \<^verbatim>\<open>saveExample\<close> is awaited with nothing around it,
  so a write that rejects makes \<^verbatim>\<open>check\<close> reject with the same error. Here the model
  answers with a verdict, the write fails, and the caller gets the store's error.
\<close>

theorem check_save_failure_counterexample:
  "transform rapperAnswer = Inr \<lparr>finalAnswer = True, explanation = of_ascii ''A rapper.''\<rparr>
   \<and> filter isModelCall (calls (check rapper isPerson noExamples plainEnv
        (plainCtx (Some task1) (Some failingAdapter) rapperAnswer) []))
      = [Generate (requestOf plainEnv unitTokenizer
           (EXAMPLES_TOKENS plainEnv unitTokenizer plainModel rapper isPerson)
           (inputAsString plainEnv unitTokenizer plainModel rapper)
           (truncatedCondition plainEnv unitTokenizer plainModel isPerson) [] noExamples)]
   \<and> returned (check rapper isPerson noExamples plainEnv
        (plainCtx (Some task1) (Some failingAdapter) rapperAnswer) [])
      = Inl (Rejected (of_ascii ''table unavailable''))
   \<and> returned (check rapper isPerson noExamples plainEnv
        (plainCtx (Some task1) (Some failingAdapter) rapperAnswer) [])
      \<noteq> Inr \<lparr>res_value = True, res_explanation = of_ascii ''A rapper.''\<rparr>"
proof -
  let ?ctx = "plainCtx (Some task1) (Some failingAdapter) rapperAnswer"
  have ta: "taskAdapter ?ctx = Some (task1, failingAdapter)"
    by (simp add: taskAdapter_def plainCtx_fields task1_not_empty)
  note run = check_miss_answered [where ?input = rapper and ?condition = isPerson
      and ?options = noExamples, OF plainCtx_fields(1) plain_tokenizer plainCtx_fields(5)
      plain_retrieve_empty_failing find.simps(1) plain_generation]
  have failed: "saveExample failingAdapter sv st = (Some (Rejected (of_ascii ''table unavailable'')), st)"
    for sv :: "nat saved_example" and st
    by (simp add: failingAdapter_def)
  show ?thesis
    unfolding run
    by (simp only: plainCtx_fields(1-5) ta if_False option.case prod.case failed)
      (simp add: setupCalls_kinds scanCalls_kinds plain_transform [unfolded plainVerdict_def])
qed

text \<open>The run that asks the model and saves its verdict.\<close>

lemma plain_run_saving:
  "check rapper isPerson noExamples plainEnv
      (plainCtx (Some task1) (Some listAdapter) rapperAnswer) [] =
     \<lparr>returned = Inr \<lparr>res_value = True, res_explanation = of_ascii ''A rapper.''\<rparr>,
      store = [plainSaved],
      calls = (setupCalls plainEnv unitTokenizer plainModel rapper isPerson
               @ [GetExamples \<lparr>q_input = inputAsString plainEnv unitTokenizer plainModel rapper,
                               q_taskType = taskType, q_taskId = task1\<rparr>])
              @ scanCalls plainEnv unitTokenizer
                  (EXAMPLES_TOKENS plainEnv unitTokenizer plainModel rapper isPerson) [] noExamples
              @ [Generate plainRequest] @ [SaveExample plainSaved]\<rparr>"
proof -
  let ?ctx = "plainCtx (Some task1) (Some listAdapter) rapperAnswer"
  have ta: "taskAdapter ?ctx = Some (task1, listAdapter)"
    by (simp add: taskAdapter_def plainCtx_fields task1_not_empty)
  have saved: "saveExample listAdapter sv st = (None, st @ [sv])"
    for sv :: "nat saved_example" and st
    by (simp add: listAdapter_def)
  note run = check_miss_answered [where ?input = rapper and ?condition = isPerson
      and ?options = noExamples, OF plainCtx_fields(1) plain_tokenizer plainCtx_fields(5)
      plain_retrieve_empty find.simps(1) plain_generation]
  show ?thesis
    unfolding run plainRequest_def plainSaved_def
    by (simp only: plainCtx_fields(1-5) ta if_False option.case prod.case saved plain_result) simp
qed

text \<open>The same run when the signal is set after the model has answered.\<close>

lemma plain_run_aborted_late:
  "check rapper isPerson noExamples plainEnv
      ((plainCtx (Some task1) (Some listAdapter) rapperAnswer)\<lparr>aborted_before_save := True\<rparr>) [] =
     \<lparr>returned = Inr \<lparr>res_value = True, res_explanation = of_ascii ''A rapper.''\<rparr>,
      store = [],
      calls = (setupCalls plainEnv unitTokenizer plainModel rapper isPerson
               @ [GetExamples \<lparr>q_input = inputAsString plainEnv unitTokenizer plainModel rapper,
                               q_taskType = taskType, q_taskId = task1\<rparr>])
              @ scanCalls plainEnv unitTokenizer
                  (EXAMPLES_TOKENS plainEnv unitTokenizer plainModel rapper isPerson) [] noExamples
              @ [Generate plainRequest]\<rparr>"
proof -
  let ?ctx = "(plainCtx (Some task1) (Some listAdapter) rapperAnswer)\<lparr>aborted_before_save := True\<rparr>"
  have f: "\<not> aborted_at_entry ?ctx" "getModel ?ctx = Inr plainModel"
    "generateContent ?ctx req transform = Inr (plainVerdict, plainMeta)"
    "aborted_before_save ?ctx" for req
    by (simp_all add: plainCtx_def singleCompletion_def plain_transform)
  have r: "retrieveExamples ?ctx i [] =
     (Inr [], [GetExamples \<lparr>q_input = i, q_taskType = taskType, q_taskId = task1\<rparr>])" for i
    by (simp add: retrieveExamples_def taskAdapter_def plainCtx_def task1_not_empty
        listAdapter_def Let_def)
  note run = check_miss_answered [where ?input = rapper and ?condition = isPerson
      and ?options = noExamples, OF f(1) plain_tokenizer f(2) r find.simps(1) f(3)]
  show ?thesis
    unfolding run plainRequest_def
    by (simp only: f(4) if_True option.case plain_result)
qed

text \<open>The run without a task.\<close>

lemma plain_run_no_task:
  "check rapper isPerson noExamples plainEnv (plainCtx None None rapperAnswer) [] =
     \<lparr>returned = Inr \<lparr>res_value = True, res_explanation = of_ascii ''A rapper.''\<rparr>,
      store = [],
      calls = (setupCalls plainEnv unitTokenizer plainModel rapper isPerson @ [])
              @ scanCalls plainEnv unitTokenizer
                  (EXAMPLES_TOKENS plainEnv unitTokenizer plainModel rapper isPerson) [] noExamples
              @ [Generate plainRequest]\<rparr>"
proof -
  let ?ctx = "plainCtx None None rapperAnswer"
  have ta: "taskAdapter ?ctx = None"
    by (simp add: taskAdapter_def plainCtx_fields)
  note run = check_miss_answered [where ?input = rapper and ?condition = isPerson
      and ?options = noExamples, OF plainCtx_fields(1) plain_tokenizer plainCtx_fields(5)
      plain_retrieve_none find.simps(1) plain_generation]
  show ?thesis
    unfolding run plainRequest_def
    by (simp only: plainCtx_fields(1-5) ta if_False option.case plain_result)
qed

theorem check_exact_match_witness:
  "returned (check rapper isPerson noExamples plainEnv
       (plainCtx (Some task1) (Some listAdapter) (of_ascii ''unused'')) [knownAnswer])
     = Inr \<lparr>res_value = True, res_explanation = of_ascii ''A rapper.''\<rparr>
   \<and> store (check rapper isPerson noExamples plainEnv
       (plainCtx (Some task1) (Some listAdapter) (of_ascii ''unused'')) [knownAnswer]) = [knownAnswer]
   \<and> filter isModelCall (calls (check rapper isPerson noExamples plainEnv
       (plainCtx (Some task1) (Some listAdapter) (of_ascii ''unused'')) [knownAnswer])) = []
   \<and> filter isSaveCall (calls (check rapper isPerson noExamples plainEnv
       (plainCtx (Some task1) (Some listAdapter) (of_ascii ''unused'')) [knownAnswer])) = []
   \<and> returned (check rapper isPerson noExamples plainEnv
       (plainCtx (Some task1) (Some listAdapter) (of_ascii ''unused''))
       (store (check rapper isPerson noExamples plainEnv
          (plainCtx (Some task1) (Some listAdapter) rapperAnswer) [])))
     = returned (check rapper isPerson noExamples plainEnv
          (plainCtx (Some task1) (Some listAdapter) rapperAnswer) [])
   \<and> filter isModelCall (calls (check rapper isPerson noExamples plainEnv
       (plainCtx (Some task1) (Some listAdapter) (of_ascii ''unused''))
       (store (check rapper isPerson noExamples plainEnv
          (plainCtx (Some task1) (Some listAdapter) rapperAnswer) [])))) = []"
proof -
  let ?ctx = "plainCtx (Some task1) (Some listAdapter) (of_ascii ''unused'')"
  let ?key = "Key plainEnv (Some task1) (inputAsString plainEnv unitTokenizer plainModel rapper)
                (truncatedCondition plainEnv unitTokenizer plainModel isPerson)"
  have got: "getExamples listAdapter
               \<lparr>q_input = inputAsString plainEnv unitTokenizer plainModel rapper,
                q_taskType = taskType, q_taskId = task1\<rparr> [knownAnswer]
             = Inr [asRetrieved knownAnswer]"
    by (rule known_retrieved)
  have key: "st_key (asRetrieved knownAnswer) = ?key"
    by (simp add: known_fields plain_input plain_condition)
  then have ex: "\<exists>x\<in>set [asRetrieved knownAnswer]. st_key x = ?key" by simp
  have f: "find (\<lambda>x. st_key x = ?key) [asRetrieved knownAnswer] = Some (asRetrieved knownAnswer)"
    using key by simp
  from check_exact_match [OF plainCtx_fields(1) plain_tokenizer plainCtx_fields(5)
      plainCtx_fields(3) task1_not_empty plainCtx_fields(4) got ex,
      of "noExamples"]
  have known: "returned (check rapper isPerson noExamples plainEnv ?ctx [knownAnswer])
       = Inr \<lparr>res_value = True, res_explanation = of_ascii ''A rapper.''\<rparr>
     \<and> store (check rapper isPerson noExamples plainEnv ?ctx [knownAnswer]) = [knownAnswer]
     \<and> filter isModelCall (calls (check rapper isPerson noExamples plainEnv ?ctx [knownAnswer])) = []
     \<and> filter isSaveCall (calls (check rapper isPerson noExamples plainEnv ?ctx [knownAnswer])) = []"
    using f by (auto simp: known_fields orEmpty_def)
  have got': "getExamples listAdapter
               \<lparr>q_input = inputAsString plainEnv unitTokenizer plainModel rapper,
                q_taskType = taskType, q_taskId = task1\<rparr> [plainSaved]
             = Inr [asRetrieved plainSaved]"
    by (simp add: listAdapter_def plainSaved_def savedExample_def)
  have fields: "st_key (asRetrieved plainSaved) = ?key"
    "st_output (asRetrieved plainSaved) = True"
    "orEmpty (st_explanation (asRetrieved plainSaved)) = of_ascii ''A rapper.''"
    by (simp_all add: asRetrieved_def plainSaved_def savedExample_def plainVerdict_def orEmpty_def)
  then have ex': "\<exists>x\<in>set [asRetrieved plainSaved]. st_key x = ?key" by simp
  have f': "find (\<lambda>x. st_key x = ?key) [asRetrieved plainSaved] = Some (asRetrieved plainSaved)"
    using fields(1) by simp
  from check_exact_match [OF plainCtx_fields(1) plain_tokenizer plainCtx_fields(5)
      plainCtx_fields(3) task1_not_empty plainCtx_fields(4) got' ex',
      of "noExamples"]
  have again: "returned (check rapper isPerson noExamples plainEnv ?ctx [plainSaved])
       = Inr \<lparr>res_value = True, res_explanation = of_ascii ''A rapper.''\<rparr>
     \<and> filter isModelCall (calls (check rapper isPerson noExamples plainEnv ?ctx [plainSaved])) = []"
    using f' by (auto simp: fields)
  from known again show ?thesis by (simp add: plain_run_saving)
qed

theorem check_cancellation_witness:
  "check rapper isPerson noExamples plainEnv
      ((plainCtx (Some task1) (Some listAdapter) rapperAnswer)\<lparr>aborted_at_entry := True\<rparr>)
      [knownAnswer]
     = \<lparr>returned = Inl Cancelled, store = [knownAnswer], calls = []\<rparr>
   \<and> returned (check rapper isPerson noExamples plainEnv
        ((plainCtx (Some task1) (Some listAdapter) rapperAnswer)\<lparr>aborted_before_save := True\<rparr>) [])
       = Inr \<lparr>res_value = True, res_explanation = of_ascii ''A rapper.''\<rparr>
   \<and> store (check rapper isPerson noExamples plainEnv
        ((plainCtx (Some task1) (Some listAdapter) rapperAnswer)\<lparr>aborted_before_save := True\<rparr>) [])
       = []
   \<and> filter isSaveCall (calls (check rapper isPerson noExamples plainEnv
        ((plainCtx (Some task1) (Some listAdapter) rapperAnswer)\<lparr>aborted_before_save := True\<rparr>) []))
       = []"
proof -
  let ?early = "(plainCtx (Some task1) (Some listAdapter) rapperAnswer)\<lparr>aborted_at_entry := True\<rparr>"
  let ?late = "(plainCtx (Some task1) (Some listAdapter) rapperAnswer)\<lparr>aborted_before_save := True\<rparr>"
  have e: "aborted_at_entry ?early" by (simp add: plainCtx_def)
  have l: "\<not> aborted_at_entry ?late" "aborted_before_save ?late"
    "generateContent ?late plainRequest transform = Inr (plainVerdict, plainMeta)"
    by (simp_all add: plainCtx_def singleCompletion_def plain_transform)
  have g: "Generate plainRequest \<in> set (calls (check rapper isPerson noExamples plainEnv ?late []))"
    unfolding plain_run_aborted_late by simp
  from check_cancellation [where ?ctx = ?early and ?input = rapper and ?condition = isPerson
      and ?options = noExamples and ?env = plainEnv and ?s = "[knownAnswer]"] e
  have first: "check rapper isPerson noExamples plainEnv ?early [knownAnswer]
     = \<lparr>returned = Inl Cancelled, store = [knownAnswer], calls = []\<rparr>"
    by blast
  from check_cancellation [where ?ctx = ?late and ?input = rapper and ?condition = isPerson
      and ?options = noExamples and ?env = plainEnv and ?s = "[]" and ?req = plainRequest
      and ?meta = plainMeta and ?ext = plainVerdict] l g
  have "returned (check rapper isPerson noExamples plainEnv ?late [])
            = Inr \<lparr>res_value = finalAnswer plainVerdict,
                   res_explanation = trim (explanation plainVerdict)\<rparr>
          \<and> store (check rapper isPerson noExamples plainEnv ?late []) = []
          \<and> filter isSaveCall (calls (check rapper isPerson noExamples plainEnv ?late [])) = []"
    by blast
  with first show ?thesis by (simp add: plain_result)
qed

theorem check_without_taskId_witness:
  "store (check rapper isPerson noExamples plainEnv
       (plainCtx None (Some listAdapter) rapperAnswer) [knownAnswer]) = [knownAnswer]
   \<and> filter isStoreCall (calls (check rapper isPerson noExamples plainEnv
       (plainCtx None (Some listAdapter) rapperAnswer) [knownAnswer])) = []
   \<and> filter isModelCall (calls (check rapper isPerson noExamples plainEnv
       (plainCtx None (Some listAdapter) rapperAnswer) [knownAnswer])) = [Generate plainRequest]
   \<and> returned (check rapper isPerson noExamples plainEnv
       (plainCtx None (Some listAdapter) rapperAnswer) [knownAnswer])
      = Inr \<lparr>res_value = True, res_explanation = of_ascii ''A rapper.''\<rparr>"
proof -
  let ?ctx = "plainCtx None (Some listAdapter) rapperAnswer"
  have n: "taskId ?ctx = None" by (simp add: plainCtx_fields)
  have p: "\<not> aborted_at_entry ?ctx \<and> getTokenizer plainEnv = Inr unitTokenizer
             \<and> getModel ?ctx = Inr plainModel"
    by (simp add: plainCtx_fields plain_tokenizer)
  have gc: "generateContent ?ctx plainRequest transform = Inr (plainVerdict, plainMeta)"
    by (rule plain_generation)
  from check_without_taskId [OF n, where ?input = rapper and ?condition = isPerson
      and ?options = noExamples and ?env = plainEnv and ?s = "[knownAnswer]"
      and ?tk = unitTokenizer and ?model = plainModel] p
  show ?thesis
    unfolding plainRequest_def [symmetric] gc by (simp add: plain_result)
qed

theorem check_save_outcome_witness:
  "returned (check rapper isPerson noExamples plainEnv (plainCtx None None rapperAnswer) [])
     = Inr \<lparr>res_value = True, res_explanation = of_ascii ''A rapper.''\<rparr>
   \<and> store (check rapper isPerson noExamples plainEnv (plainCtx None None rapperAnswer) []) = []
   \<and> SaveExample plainSaved \<in> set (calls (check rapper isPerson noExamples plainEnv
        (plainCtx (Some task1) (Some listAdapter) rapperAnswer) []))
   \<and> (\<exists>tid a. taskAdapter (plainCtx (Some task1) (Some listAdapter) rapperAnswer) = Some (tid, a)
         \<and> \<not> aborted_before_save (plainCtx (Some task1) (Some listAdapter) rapperAnswer)
         \<and> returned (check rapper isPerson noExamples plainEnv
              (plainCtx (Some task1) (Some listAdapter) rapperAnswer) [])
             = (case fst (saveExample a plainSaved []) of
                  Some e \<Rightarrow> Inl e
                | None \<Rightarrow> Inr \<lparr>res_value = finalAnswer plainVerdict,
                                res_explanation = trim (explanation plainVerdict)\<rparr>)
         \<and> store (check rapper isPerson noExamples plainEnv
              (plainCtx (Some task1) (Some listAdapter) rapperAnswer) [])
             = snd (saveExample a plainSaved []))
   \<and> returned (check rapper isPerson noExamples plainEnv
        (plainCtx (Some task1) (Some listAdapter) rapperAnswer) [])
       = Inr \<lparr>res_value = True, res_explanation = of_ascii ''A rapper.''\<rparr>
   \<and> store (check rapper isPerson noExamples plainEnv
        (plainCtx (Some task1) (Some listAdapter) rapperAnswer) []) = [plainSaved]"
proof -
  let ?none = "plainCtx None None rapperAnswer"
  let ?task = "plainCtx (Some task1) (Some listAdapter) rapperAnswer"
  have g1: "Generate plainRequest \<in> set (calls (check rapper isPerson noExamples plainEnv ?none []))"
    unfolding plain_run_no_task by simp
  have n1: "filter isSaveCall (calls (check rapper isPerson noExamples plainEnv ?none [])) = []"
    unfolding plain_run_no_task by (simp add: setupCalls_kinds scanCalls_kinds)
  have g2: "Generate plainRequest \<in> set (calls (check rapper isPerson noExamples plainEnv ?task []))"
    unfolding plain_run_saving by simp
  have s2: "SaveExample plainSaved \<in> set (calls (check rapper isPerson noExamples plainEnv ?task []))"
    unfolding plain_run_saving by simp
  from check_save_outcome [OF g1 plain_generation] n1
  have a: "returned (check rapper isPerson noExamples plainEnv ?none [])
              = Inr \<lparr>res_value = finalAnswer plainVerdict,
                     res_explanation = trim (explanation plainVerdict)\<rparr>
            \<and> store (check rapper isPerson noExamples plainEnv ?none []) = []"
    by blast
  from check_save_outcome [OF g2 plain_generation] s2
  have b: "\<exists>tid a. taskAdapter ?task = Some (tid, a) \<and> \<not> aborted_before_save ?task
         \<and> returned (check rapper isPerson noExamples plainEnv ?task [])
             = (case fst (saveExample a plainSaved []) of
                  Some e \<Rightarrow> Inl e
                | None \<Rightarrow> Inr \<lparr>res_value = finalAnswer plainVerdict,
                                res_explanation = trim (explanation plainVerdict)\<rparr>)
         \<and> store (check rapper isPerson noExamples plainEnv ?task [])
             = snd (saveExample a plainSaved [])"
    by blast
  have c: "returned (check rapper isPerson noExamples plainEnv ?task [])
       = Inr \<lparr>res_value = True, res_explanation = of_ascii ''A rapper.''\<rparr>"
    "store (check rapper isPerson noExamples plainEnv ?task []) = [plainSaved]"
    unfolding plain_run_saving by simp_all
  from a b c s2 show ?thesis by (simp add: plain_result)
qed

theorem check_key_ignores_caller_examples_witness:
  "check rapper isPerson \<lparr>opt_examples = []\<rparr> plainEnv
      (plainCtx (Some task1) (Some listAdapter) rapperAnswer) [knownAnswer]
     = check rapper isPerson \<lparr>opt_examples = defaultExamples\<rparr> plainEnv
         (plainCtx (Some task1) (Some listAdapter) rapperAnswer) [knownAnswer]
   \<and> SaveExample plainSaved \<in> set (calls (check rapper isPerson \<lparr>opt_examples = []\<rparr> plainEnv
        (plainCtx (Some task1) (Some listAdapter) rapperAnswer) []))
   \<and> sv_key plainSaved = Key plainEnv (Some task1) (of_ascii ''50 Cent'') isPerson"
proof -
  let ?ctx = "plainCtx (Some task1) (Some listAdapter) rapperAnswer"
  let ?key = "Key plainEnv (Some task1) (inputAsString plainEnv unitTokenizer plainModel rapper)
                (truncatedCondition plainEnv unitTokenizer plainModel isPerson)"
  have got: "getExamples listAdapter
               \<lparr>q_input = inputAsString plainEnv unitTokenizer plainModel rapper,
                q_taskType = taskType, q_taskId = task1\<rparr> [knownAnswer]
             = Inr [asRetrieved knownAnswer]"
    by (rule known_retrieved)
  have key: "st_key (asRetrieved knownAnswer) = ?key"
    by (simp add: known_fields plain_input plain_condition)
  then have ex: "\<exists>x\<in>set [asRetrieved knownAnswer]. st_key x = ?key" by simp
  have hyp: "\<not> aborted_at_entry ?ctx \<and> getTokenizer plainEnv = Inr unitTokenizer
      \<and> getModel ?ctx = Inr plainModel \<and> taskId ?ctx = Some task1 \<and> task1 \<noteq> []
      \<and> adapter ?ctx = Some listAdapter
      \<and> getExamples listAdapter
               \<lparr>q_input = inputAsString plainEnv unitTokenizer plainModel rapper,
                q_taskType = taskType, q_taskId = task1\<rparr> [knownAnswer]
             = Inr [asRetrieved knownAnswer]
      \<and> (\<exists>x\<in>set [asRetrieved knownAnswer]. st_key x = ?key)"
    using got ex by (simp add: plainCtx_fields plain_tokenizer task1_not_empty)
  from check_key_ignores_caller_examples [where ?ctx = ?ctx and ?env = plainEnv
      and ?tk = unitTokenizer and ?model = plainModel and ?tid = task1 and ?a = listAdapter
      and ?input = rapper and ?condition = isPerson and ?s = "[knownAnswer]"
      and ?examples = "[asRetrieved knownAnswer]" and ?given1.0 = "[]"
      and ?given2.0 = defaultExamples] hyp
  have same: "check rapper isPerson \<lparr>opt_examples = []\<rparr> plainEnv ?ctx [knownAnswer]
     = check rapper isPerson \<lparr>opt_examples = defaultExamples\<rparr> plainEnv ?ctx [knownAnswer]"
    by blast
  have s: "SaveExample plainSaved \<in> set (calls (check rapper isPerson \<lparr>opt_examples = []\<rparr> plainEnv ?ctx []))"
    using plain_run_saving by (simp add: noExamples_def)
  from check_key_ignores_caller_examples [where ?ctx = ?ctx and ?env = plainEnv
      and ?input = rapper and ?condition = isPerson and ?s = "[]" and ?given1.0 = "[]"] s
  have "\<exists>tk model. getTokenizer plainEnv = Inr tk \<and> getModel ?ctx = Inr model
              \<and> sv_key plainSaved = Key plainEnv (taskId ?ctx) (inputAsString plainEnv tk model rapper)
                               (truncatedCondition plainEnv tk model isPerson)"
    by blast
  then have k: "sv_key plainSaved = Key plainEnv (Some task1) (of_ascii ''50 Cent'') isPerson"
    by (auto simp: plainCtx_fields plain_tokenizer plain_input plain_condition)
  from same s k show ?thesis by blast
qed

text \<open>
  C7. The pool is the retrieved examples, mapped to the shape of an example, followed by
  the caller's examples, or the two built-in examples when that list is empty. The
  packed examples are a prefix of the pool; their accumulated cost (the token count of
  the serialized input plus that of the reason) is within the budget; no longer prefix
  of the pool is within the budget; when an example is left out, adding the first
  example left out exceeds the budget; and the request given to the model holds the
  packed examples, formatted in order, before the final message.
\<close>

theorem packed_examples_longest_prefix:
  "userExamples examples options
     = map (\<lambda>e. \<lparr>ex_input = JString (st_input e), ex_check = st_output e,
                   ex_reason = st_explanation e, ex_condition = None\<rparr>) examples
       @ opt_examples options
   \<and> examplePool (userExamples examples options)
       = (if userExamples examples options = [] then defaultExamples
          else userExamples examples options)
   \<and> packedExamples env tk budget examples options
       = take (length (packedExamples env tk budget examples options))
           (examplePool (userExamples examples options))
   \<and> (0 \<le> budget \<longrightarrow>
        sum_list (map (\<lambda>el. int (tok_count tk (stringify env (ex_input el)))
                             + int (tok_count tk (orEmpty (ex_reason el))))
                  (packedExamples env tk budget examples options)) \<le> budget)
   \<and> (\<forall>n. n \<le> length (examplePool (userExamples examples options))
          \<and> sum_list (map (\<lambda>el. int (tok_count tk (stringify env (ex_input el)))
                                 + int (tok_count tk (orEmpty (ex_reason el))))
                      (take n (examplePool (userExamples examples options)))) \<le> budget
        \<longrightarrow> n \<le> length (packedExamples env tk budget examples options))
   \<and> (packedExamples env tk budget examples options \<noteq> examplePool (userExamples examples options)
        \<longrightarrow> budget < sum_list (map (\<lambda>el. int (tok_count tk (stringify env (ex_input el)))
                                         + int (tok_count tk (orEmpty (ex_reason el))))
                 (take (Suc (length (packedExamples env tk budget examples options)))
                    (examplePool (userExamples examples options)))))
   \<and> messages (requestOf env tk budget input condition examples options)
       = allExamples env (userExamples examples options) condition
           (packedExamples env tk budget examples options)
         @ [finalMessage (userExamples examples options)
              (exampleIdAfter (userExamples examples options)
                 (packedExamples env tk budget examples options)) input condition]
   \<and> Generate (requestOf env tk budget input condition examples options)
       \<in> set (calls (freshVerdict env ctx tk budget key input condition examples options s made))"
proof -
  let ?pool = "examplePool (userExamples examples options)"
  let ?cost = "exampleCost env tk"
  have cost: "(\<lambda>el. int (tok_count tk (stringify env (ex_input el)))
                   + int (tok_count tk (orEmpty (ex_reason el)))) = ?cost"
    by (rule ext) (simp add: exampleCost_def)
  have p: "packedExamples env tk budget examples options = takeUntilTokensFrom 0 ?pool budget ?cost"
    by (simp add: packedExamples_def takeUntilTokens_def)
  have a: "packedExamples env tk budget examples options
       = take (length (packedExamples env tk budget examples options)) ?pool"
    unfolding p by (rule takeUntilTokensFrom_prefix)
  have b: "0 \<le> budget \<longrightarrow> sum_list (map ?cost (packedExamples env tk budget examples options)) \<le> budget"
    unfolding p using takeUntilTokensFrom_within [of 0 budget ?cost ?pool] by simp
  have c: "\<forall>n. n \<le> length ?pool \<and> sum_list (map ?cost (take n ?pool)) \<le> budget
        \<longrightarrow> n \<le> length (packedExamples env tk budget examples options)"
    unfolding p
  proof (intro allI impI)
    fix n
    assume h: "n \<le> length ?pool \<and> sum_list (map ?cost (take n ?pool)) \<le> budget"
    then have le: "n \<le> length ?pool" and fits: "0 + sum_list (map ?cost (take n ?pool)) \<le> budget"
      by simp_all
    show "n \<le> length (takeUntilTokensFrom 0 ?pool budget ?cost)"
      by (rule takeUntilTokensFrom_longest [OF exampleCost_nonneg le fits])
  qed
  have d: "packedExamples env tk budget examples options \<noteq> ?pool
        \<longrightarrow> budget < sum_list (map ?cost
                 (take (Suc (length (packedExamples env tk budget examples options))) ?pool))"
    unfolding p using takeUntilTokensFrom_stops [of 0 ?pool budget ?cost] by simp
  have e: "Generate (requestOf env tk budget input condition examples options)
       \<in> set (filter isModelCall
                (calls (freshVerdict env ctx tk budget key input condition examples options s made)))"
    unfolding freshVerdict_model_calls by simp
  then have e': "Generate (requestOf env tk budget input condition examples options)
       \<in> set (calls (freshVerdict env ctx tk budget key input condition examples options s made))"
    by simp
  have f: "messages (requestOf env tk budget input condition examples options)
       = allExamples env (userExamples examples options) condition
           (packedExamples env tk budget examples options)
         @ [finalMessage (userExamples examples options)
              (exampleIdAfter (userExamples examples options)
                 (packedExamples env tk budget examples options)) input condition]"
    by (simp add: requestOf_def checkRequest_def)
  have g: "userExamples examples options
     = map (\<lambda>e. \<lparr>ex_input = JString (st_input e), ex_check = st_output e,
                   ex_reason = st_explanation e, ex_condition = None\<rparr>) examples
       @ opt_examples options"
    by (simp add: userExamples_def)
  have h: "?pool = (if userExamples examples options = [] then defaultExamples
          else userExamples examples options)"
    by (simp add: examplePool_def)
  from a b c d e' f g h show ?thesis unfolding cost by blast
qed

lemma plain_pool: "examplePool (userExamples [] noExamples) = (defaultExamples :: unit Example list)"
  by (simp add: examplePool_def userExamples_def noExamples_def defaultExamples_def)

lemma plain_packed:
  "packedExamples plainEnv unitTokenizer 100 [] noExamples = take 1 defaultExamples"
  unfolding packedExamples_def plain_pool
  by (simp add: takeUntilTokens_def defaultExamples_def exampleCost_def plainEnv_def
      unitTokenizer_def orEmpty_def of_ascii_def)

theorem packed_examples_longest_prefix_witness:
  "packedExamples plainEnv unitTokenizer 100 [] noExamples = take 1 defaultExamples
   \<and> sum_list (map (\<lambda>el. int (tok_count unitTokenizer (stringify plainEnv (ex_input el)))
                         + int (tok_count unitTokenizer (orEmpty (ex_reason el))))
                (packedExamples plainEnv unitTokenizer 100 [] noExamples)) \<le> 100
   \<and> 100 < sum_list (map (\<lambda>el. int (tok_count unitTokenizer (stringify plainEnv (ex_input el)))
                               + int (tok_count unitTokenizer (orEmpty (ex_reason el))))
                (take (Suc (length (packedExamples plainEnv unitTokenizer 100 [] noExamples)))
                   (examplePool (userExamples [] noExamples))))
   \<and> Generate (requestOf plainEnv unitTokenizer 100 (of_ascii ''50 Cent'') isPerson [] noExamples)
       \<in> set (calls (freshVerdict plainEnv (plainCtx None None rapperAnswer) unitTokenizer 100
                       (of_ascii ''k'') (of_ascii ''50 Cent'') isPerson [] noExamples [] []))"
proof -
  have ne: "packedExamples plainEnv unitTokenizer 100 [] noExamples
              \<noteq> examplePool (userExamples [] noExamples)"
    unfolding plain_packed plain_pool by (simp add: defaultExamples_def)
  have nn: "(0::int) \<le> 100" by simp
  from packed_examples_longest_prefix [where ?env = plainEnv and ?tk = unitTokenizer
      and ?budget = 100 and ?examples = "[]" and ?options = noExamples
      and ?input = "of_ascii ''50 Cent''" and ?condition = isPerson
      and ?ctx = "plainCtx None None rapperAnswer" and ?key = "of_ascii ''k''" and ?s = "[]"
      and ?made = "[]"] ne nn plain_packed
  show ?thesis by blast
qed

end
